theory Spec2Isabelle
  imports Main "HOL-Library.Word"
begin

unbundle bit_operations_syntax

section \<open>devio: the server end of the ImDisk proxy\<close>

text \<open>
  A shallow embedding of \<^verbatim>\<open>src/devio/devio.c\<close>. The embedding follows the build
  without \<^verbatim>\<open>_WIN32\<close> on a 64-bit little-endian host: \<^verbatim>\<open>safeio_size_t\<close>,
  \<^verbatim>\<open>ULONGLONG\<close> and the unsigned fields of the protocol are 64-bit words,
  \<^verbatim>\<open>off_t_64\<close> and \<^verbatim>\<open>safeio_ssize_t\<close> are the same 64 bits read as two's
  complement (the value \<open>-1\<close> is the word of all ones). The C parameter \<^verbatim>\<open>size\<close> is written
  \<open>sz\<close>.
\<close>

type_synonym byte = "8 word"
type_synonym u32 = "32 word"
type_synonym u64 = "64 word"

subsection \<open>Endian codecs\<close>

text \<open>
  \<^verbatim>\<open>GetBigEndian64(int8_t *storage)\<close>: the loop runs \<open>i\<close> over \<open>0..7\<close> and
  ors \<^verbatim>\<open>(int64_t)storage[i] << ((8 - i - 1) << 3)\<close> into \<open>number\<close>. The array
  elements are \<^verbatim>\<open>int8_t\<close>, so the conversion to \<^verbatim>\<open>int64_t\<close> extends the sign
  (\<open>scast\<close>).
\<close>

definition GetBigEndian64 :: "byte list \<Rightarrow> u64" where
  "GetBigEndian64 storage =
     foldl (\<lambda>number i. number OR push_bit ((8 - i - 1) * 8) (scast (storage ! i) :: u64))
       0 [0..<8]"

text \<open>
  \<^verbatim>\<open>GetLittleEndian32U(uint8_t *storage)\<close>: the same loop over four unsigned
  bytes, shifted by \<^verbatim>\<open>i << 3\<close>.
\<close>

definition GetLittleEndian32U :: "byte list \<Rightarrow> u32" where
  "GetLittleEndian32U storage =
     foldl (\<lambda>number i. number OR push_bit (i * 8) (ucast (storage ! i) :: u32)) 0 [0..<4]"

text \<open>
  The value the specification asks of the big-endian 64-bit load: the sum over \<open>i\<close> of
  \<open>b[i] * 2^(8*(7-i))\<close>, every byte read as a number in \<open>0..255\<close>.
\<close>

definition be64_value :: "byte list \<Rightarrow> nat" where
  "be64_value b = (\<Sum>i<8. unat (b ! i) * 2 ^ (8 * (7 - i)))"

subsection \<open>The host: image file, errno, allocation, diagnostics\<close>

text \<open>
  \<^verbatim>\<open>physical_read\<close> and \<^verbatim>\<open>physical_write\<close> call \<^verbatim>\<open>pread\<close> and \<^verbatim>\<open>pwrite\<close> on
  the image file (\<^verbatim>\<open>dll_mode = 0\<close>). The file is a list of bytes. What the operating
  system does with one call is an \<open>outcome\<close>: the whole transfer, a short one, or the
  failure \<open>-1\<close> with an error number. The outcome of a call is a function of its offset
  and size (\<open>rd_fault\<close>, \<open>wr_fault\<close>), so a repeated call sees the same outcome. Every
  call is recorded in \<open>journal\<close> with its offset, size and result, a write also with the
  bytes that went to the file; the \<open>purpose\<close> of a write names its call site and has no
  effect on the result. \<open>alloc_ok\<close> tells whether \<^verbatim>\<open>malloc\<close> of a size succeeds
  and \<open>garbage\<close> what the fresh memory holds, \<open>stderr\<close> collects the format strings
  passed to \<^verbatim>\<open>syslog\<close>.
\<close>

datatype outcome = Complete | Partial nat | Failed int

datatype purpose = BatEntry | NewBlock | Bitmap | Payload

datatype io_event =
    PRead u64 u64 u64
  | PWrite purpose u64 u64 u64 "byte list"

record host =
  image_file :: "byte list"
  errno :: int
  rd_fault :: "u64 \<Rightarrow> u64 \<Rightarrow> outcome"
  wr_fault :: "u64 \<Rightarrow> u64 \<Rightarrow> outcome"
  alloc_ok :: "nat \<Rightarrow> bool"
  garbage :: "nat \<Rightarrow> byte"
  journal :: "io_event list"
  stderr :: "string list"

definition E2BIG :: int where "E2BIG = 7"
definition EBADF :: int where "EBADF = 9"
definition ENODEV :: int where "ENODEV = 19"
definition EINVAL :: int where "EINVAL = 22"

definition syslog :: "string \<Rightarrow> host \<Rightarrow> host" where
  "syslog msg h = h\<lparr>stderr := stderr h @ [msg]\<rparr>"

text \<open>\<^verbatim>\<open>if (errno == 0) errno = E2BIG;\<close>\<close>

definition errno_or_E2BIG :: "host \<Rightarrow> host" where
  "errno_or_E2BIG h = (if errno h = 0 then h\<lparr>errno := E2BIG\<rparr> else h)"

text \<open>
  \<^verbatim>\<open>pread\<close>: a negative offset is refused with \<^verbatim>\<open>EINVAL\<close>; otherwise the bytes
  from the offset up to the end of the file, at most \<open>sz\<close> of them (fewer on a short
  transfer). The result is the count, the bytes read, and the host.
\<close>

definition physical_read :: "u64 \<Rightarrow> u64 \<Rightarrow> host \<Rightarrow> u64 \<times> byte list \<times> host" where
  "physical_read sz offset h =
     (let (r, data, h') =
        (if sint offset < 0 then (- 1, [], h\<lparr>errno := EINVAL\<rparr>)
         else case rd_fault h offset sz of
             Failed e \<Rightarrow> (- 1, [], h\<lparr>errno := e\<rparr>)
           | Partial n \<Rightarrow>
               (let data = take (min n (unat sz)) (drop (unat offset) (image_file h))
                in (of_nat (length data), data, h))
           | Complete \<Rightarrow>
               (let data = take (unat sz) (drop (unat offset) (image_file h))
                in (of_nat (length data), data, h)))
      in (r, data, h'\<lparr>journal := journal h' @ [PRead offset sz r]\<rparr>))"

text \<open>
  \<^verbatim>\<open>pwrite\<close> of \<open>data\<close> at position \<open>pos\<close>: bytes inside the file are replaced, a
  write beyond the end extends the file, a gap is filled with zeros; a write of no bytes
  changes nothing.
\<close>

definition put_at :: "nat \<Rightarrow> byte list \<Rightarrow> byte list \<Rightarrow> byte list" where
  "put_at pos data img =
     (if data = [] then img
      else take pos img @ replicate (pos - length img) 0 @ data @ drop (pos + length data) img)"

text \<open>\<open>io\<close> is the memory from \<^verbatim>\<open>io_ptr\<close> on; the result is the count and the host.\<close>

definition physical_write :: "purpose \<Rightarrow> byte list \<Rightarrow> u64 \<Rightarrow> u64 \<Rightarrow> host \<Rightarrow> u64 \<times> host" where
  "physical_write tag io sz offset h =
     (let (r, data, h') =
        (if sint offset < 0 then (- 1, [], h\<lparr>errno := EINVAL\<rparr>)
         else case wr_fault h offset sz of
             Failed e \<Rightarrow> (- 1, [], h\<lparr>errno := e\<rparr>)
           | Partial n \<Rightarrow>
               (let data = take (min n (unat sz)) io in (of_nat (length data), data, h))
           | Complete \<Rightarrow>
               (let data = take (unat sz) io in (of_nat (length data), data, h)))
      in (r, h'\<lparr>image_file := put_at (unat offset) data (image_file h'),
                journal := journal h' @ [PWrite tag offset sz r data]\<rparr>))"

text \<open>
  \<^verbatim>\<open>_lseeki64(image_fd, delta, SEEK_END)\<close>: the position \<open>delta\<close> from the end of the
  file, or \<open>-1\<close> with \<^verbatim>\<open>EINVAL\<close> when that lies before the start.
\<close>

definition lseek_end :: "u64 \<Rightarrow> host \<Rightarrow> u64 \<times> host" where
  "lseek_end delta h =
     (let pos = int (length (image_file h)) + sint delta
      in if pos < 0 then (- 1, h\<lparr>errno := EINVAL\<rparr>) else (of_int pos, h))"

text \<open>The effect of the recorded calls on the file, in their order.\<close>

fun apply_event :: "byte list \<Rightarrow> io_event \<Rightarrow> byte list" where
  "apply_event bytes (PRead offset sz r) = bytes"
| "apply_event bytes (PWrite tag offset sz r data) = put_at (unat offset) data bytes"

definition replay :: "io_event list \<Rightarrow> byte list \<Rightarrow> byte list" where
  "replay evs bytes = foldl apply_event bytes evs"

subsection \<open>Memory and the 32-bit BAT entry\<close>

text \<open>
  A buffer is the list of the bytes of one allocated block, and a pointer into it an
  index. \<^verbatim>\<open>memset\<close> and a copy into the buffer (\<open>store\<close>: what \<^verbatim>\<open>pread\<close> and
  \<^verbatim>\<open>safe_read\<close> do with the bytes they have got) replace a range of the block. A range
  that leaves the block is a write past the allocation: C gives it no meaning, and the
  result is \<open>None\<close>.
\<close>

definition memset :: "byte list \<Rightarrow> nat \<Rightarrow> byte \<Rightarrow> nat \<Rightarrow> byte list option" where
  "memset mem p c n =
     (if p + n \<le> length mem then Some (take p mem @ replicate n c @ drop (p + n) mem)
      else None)"

definition store :: "byte list \<Rightarrow> nat \<Rightarrow> byte list \<Rightarrow> byte list option" where
  "store mem p data =
     (if p + length data \<le> length mem
      then Some (take p mem @ data @ drop (p + length data) mem)
      else None)"

text \<open>
  \<^verbatim>\<open>uint32_t block_offset\<close> is filled from four bytes of the file and written back
  as four bytes: the little-endian object representation. \<^verbatim>\<open>ntohl\<close> and
  \<^verbatim>\<open>htonl\<close> swap the four bytes.
\<close>

definition load32 :: "byte list \<Rightarrow> u32" where
  "load32 bs = ucast (bs ! 0) OR push_bit 8 (ucast (bs ! 1))
               OR push_bit 16 (ucast (bs ! 2)) OR push_bit 24 (ucast (bs ! 3))"

definition bytes32 :: "u32 \<Rightarrow> byte list" where
  "bytes32 x = [ucast x, ucast (drop_bit 8 x), ucast (drop_bit 16 x), ucast (drop_bit 24 x)]"

definition ntohl :: "u32 \<Rightarrow> u32" where
  "ntohl x = push_bit 24 (x AND 0xFF) OR push_bit 8 (x AND 0xFF00)
             OR (drop_bit 8 x AND 0xFF00) OR drop_bit 24 x"

definition htonl :: "u32 \<Rightarrow> u32" where
  "htonl x = ntohl x"

subsection \<open>The VHD engine\<close>

text \<open>
  The globals set once in \<^verbatim>\<open>main\<close> when a dynamic VHD is detected, and the saved
  \<^verbatim>\<open>vhd_info.Footer\<close> (512 bytes).
\<close>

record vhd =
  block_size :: u64
  sector_size :: u64
  table_offset :: u64
  block_shift :: nat
  sector_shift :: nat
  current_size :: u64
  Footer :: "byte list"

text \<open>\<^verbatim>\<open>sizeof(vhd_info.Footer)\<close>\<close>

definition sizeof_Footer :: u64 where
  "sizeof_Footer = 512"

text \<open>
  \<^verbatim>\<open>vhd_read(io_ptr, size, offset)\<close>, lines 701-770. \<open>mem\<close> is the buffer and \<open>p\<close> the
  index \<^verbatim>\<open>io_ptr\<close> points to. \<open>vhd_read_part\<close> is the body up to the recursive call:
  it either returns (\<open>ReadReturn\<close>) or reaches \<^verbatim>\<open>if (second_size > 0)\<close> with a tail
  left to read (\<open>ReadTail\<close>, carrying \<open>readdone\<close>, the buffer, the host and
  \<open>first_size\<close>, \<open>second_size\<close>, \<open>second_offset\<close>), which is the test
  \<open>vhd_read_finish\<close>; or it has written past the buffer (\<open>ReadUndefined\<close>).

  \<^verbatim>\<open>offset + size > current_size\<close> adds a signed and an unsigned 64-bit value, so
  the sum and the comparison are unsigned; \<^verbatim>\<open>offset >> block_shift\<close> shifts the
  signed offset. The physical read of the first part is issued twice (lines 752-753),
  the result of the second call is the one kept.
\<close>

datatype read_part =
    ReadReturn u64 "byte list" host
  | ReadTail u64 "byte list" host u64 u64 u64
  | ReadUndefined

definition vhd_read_finish ::
  "u64 \<Rightarrow> byte list \<Rightarrow> host \<Rightarrow> u64 \<Rightarrow> u64 \<Rightarrow> u64 \<Rightarrow> read_part" where
  "vhd_read_finish readdone mem h first_size second_size second_offset =
     (if second_size > 0 then ReadTail readdone mem h first_size second_size second_offset
      else ReadReturn readdone mem h)"

definition vhd_read_part :: "vhd \<Rightarrow> host \<Rightarrow> byte list \<Rightarrow> nat \<Rightarrow> u64 \<Rightarrow> u64 \<Rightarrow> read_part" where
  "vhd_read_part v h mem p sz offset =
     (if offset + sz > current_size v then ReadReturn 0 mem h
      else
        let block_number = signed_drop_bit (block_shift v) offset;
            data_offset = table_offset v + push_bit 2 block_number;
            in_block_offset = offset AND (block_size v - 1);
            split = (sz + in_block_offset > block_size v);
            first_size = (if split then block_size v - in_block_offset else sz);
            second_size = (if split then sz - first_size else 0);
            second_offset = (if split then offset + first_size else 0);
            (readdone, entry, h1) = physical_read 4 data_offset h
        in
          if readdone \<noteq> 4 then
            ReadReturn (- 1) mem
              (errno_or_E2BIG (syslog ''vhd_read: Error reading block table: %m'' h1))
          else
            case memset mem p 0 (unat sz) of
              None \<Rightarrow> ReadUndefined
            | Some mem1 \<Rightarrow>
                let block_offset = load32 entry
                in
                  if block_offset = 0xFFFFFFFF then
                    vhd_read_finish first_size mem1 h1 first_size second_size second_offset
                  else
                    let block_offset = ntohl block_offset;
                        data_offset =
                          push_bit (sector_shift v) (ucast block_offset) + sector_size v
                          + in_block_offset;
                        (readdone, data1, h2) = physical_read first_size data_offset h1
                    in
                      case store mem1 p data1 of
                        None \<Rightarrow> ReadUndefined
                      | Some mem2 \<Rightarrow>
                          let (readdone, data2, h3) = physical_read first_size data_offset h2
                          in
                            case store mem2 p data2 of
                              None \<Rightarrow> ReadUndefined
                            | Some mem3 \<Rightarrow>
                                if readdone = - 1 then ReadReturn (- 1) mem3 h3
                                else
                                  vhd_read_finish readdone mem3 h3
                                    first_size second_size second_offset)"

text \<open>
  The recursion on the tail (lines 758-767). A call that does not return, or that
  writes past the buffer, has the value \<open>None\<close>.
\<close>

partial_function (option) vhd_read ::
  "vhd \<Rightarrow> host \<Rightarrow> byte list \<Rightarrow> nat \<Rightarrow> u64 \<Rightarrow> u64 \<Rightarrow> (u64 \<times> byte list \<times> host) option" where
  "vhd_read v h mem p sz offset =
     (case vhd_read_part v h mem p sz offset of
        ReadUndefined \<Rightarrow> None
      | ReadReturn r mem' h' \<Rightarrow> Some (r, mem', h')
      | ReadTail readdone mem' h' first_size second_size second_offset \<Rightarrow>
          Option.bind
            (vhd_read v h' mem' (p + unat first_size) second_size second_offset)
            (\<lambda>(second_read, mem'', h'').
               if second_read = - 1 then Some (- 1, mem'', h'')
               else Some (readdone + second_read, mem'', h'')))"

text \<open>
  The zero test of \<^verbatim>\<open>vhd_write\<close>, lines 825-828:
  \<^verbatim>\<open>for (buf_ptr = io_ptr; (buf_ptr < io_ptr + n) ? 0 : (*buf_ptr == 0); buf_ptr++);\<close>
  with \<open>n = first_size_nqwords\<close> and \<open>i\<close> the distance of \<^verbatim>\<open>buf_ptr\<close> from
  \<^verbatim>\<open>io_ptr\<close> in 64-bit words. Inside the first \<open>n\<close> words the condition is \<open>0\<close> and
  the loop stops; from the \<open>n\<close>-th word on it reads the word and goes on while it is
  zero. The result is the final \<open>i\<close>, or \<open>None\<close> when the loop reads past the memory
  \<open>io\<close>.
\<close>

function zero_scan :: "byte list \<Rightarrow> nat \<Rightarrow> nat \<Rightarrow> nat option" where
  "zero_scan io n i =
     (if i < n then Some i
      else if length io < 8 * i + 8 then None
      else if take 8 (drop (8 * i) io) = replicate 8 0 then zero_scan io n (Suc i)
      else Some i)"
  by pat_completeness auto
termination
  by (relation "measure (\<lambda>(io, n, i). length io - 8 * i)") auto

declare zero_scan.simps [simp del]

text \<open>
  \<^verbatim>\<open>vhd_write(io_ptr, size, offset)\<close>, lines 773-963; \<open>vhd_write_part\<close> is the body
  up to either recursive call. \<open>WriteUndefined\<close>: the zero test has left the buffer, or
  the buffer ends before the \<open>first_size\<close> bytes that \<^verbatim>\<open>pwrite\<close> is given to read.
  Lines 919-949, the write of the data and of the bitmap, are \<open>vhd_write_data\<close>;
  \<open>finish\<close> is the test \<^verbatim>\<open>if (second_size > 0)\<close> before either recursive call.
\<close>

datatype write_part =
    WriteReturn u64 host
  | WriteTail u64 host u64 u64 u64
  | WriteUndefined

definition vhd_write_finish :: "u64 \<Rightarrow> host \<Rightarrow> u64 \<Rightarrow> u64 \<Rightarrow> u64 \<Rightarrow> write_part" where
  "vhd_write_finish writedone h first_size second_size second_offset =
     (if second_size > 0 then WriteTail writedone h first_size second_size second_offset
      else WriteReturn writedone h)"

definition vhd_write_data ::
  "vhd \<Rightarrow> host \<Rightarrow> byte list \<Rightarrow> u32 \<Rightarrow> u64 \<Rightarrow> u64 \<Rightarrow> u64 \<Rightarrow> u64 \<Rightarrow> write_part" where
  "vhd_write_data v h io block_offset in_block_offset first_size second_size second_offset =
     (if length io < unat first_size then WriteUndefined
      else
      let block_offset = ntohl block_offset;
          data_offset =
            push_bit (sector_shift v) (ucast block_offset) + sector_size v + in_block_offset;
          (writedone, h1) = physical_write Payload io first_size data_offset h
      in
        if writedone = - 1 then WriteReturn (- 1) h1
        else
          let bitmap_offset =
                push_bit (sector_shift v) (ucast block_offset)
                + drop_bit 3 (drop_bit (sector_shift v) in_block_offset);
              bitmap_datasize =
                drop_bit 3 (drop_bit (sector_shift v) (first_size + sector_size v - 1) + 7);
              buf2 = replicate (unat bitmap_datasize) (0xFF :: byte);
              (readdone, h2) = physical_write Bitmap buf2 bitmap_datasize bitmap_offset h1
          in
            if readdone \<noteq> bitmap_datasize then
              WriteReturn (- 1)
                (errno_or_E2BIG (syslog ''vhd_write: Error updating block bitmap: %m'' h2))
            else vhd_write_finish writedone h2 first_size second_size second_offset)"

definition vhd_write_part :: "vhd \<Rightarrow> host \<Rightarrow> byte list \<Rightarrow> nat \<Rightarrow> u64 \<Rightarrow> u64 \<Rightarrow> write_part" where
  "vhd_write_part v h mem p sz offset =
     (if offset + sz > current_size v then WriteReturn 0 h
      else
        let io = drop p mem;
            block_number = signed_drop_bit (block_shift v) offset;
            data_offset = table_offset v + push_bit 2 block_number;
            in_block_offset = offset AND (block_size v - 1);
            split = (sz + in_block_offset > block_size v);
            first_size = (if split then block_size v - in_block_offset else sz);
            second_size = (if split then sz - first_size else 0);
            second_offset = (if split then offset + first_size else 0);
            first_size_nqwords = drop_bit 3 (first_size + 7);
            (readdone, entry, h1) = physical_read 4 data_offset h
        in
          if readdone \<noteq> 4 then
            WriteReturn (- 1)
              (errno_or_E2BIG (syslog ''vhd_write: Error reading block table: %m'' h1))
          else
            let block_offset = load32 entry
            in
              if block_offset = 0xFFFFFFFF then
                (case zero_scan io (unat first_size_nqwords) 0 of
                   None \<Rightarrow> WriteUndefined
                 | Some buf_ptr \<Rightarrow>
                     if buf_ptr \<ge> unat first_size_nqwords then
                       vhd_write_finish first_size h1 first_size second_size second_offset
                     else if \<not> alloc_ok h1 (unat (sector_size v + block_size v + sizeof_Footer))
                     then
                       WriteReturn (- 1)
                         (syslog
                            ''vhd_write: Error allocating memory buffer for new block: %m'' h1)
                     else
                       let (block_offset_bytes, h2) = lseek_end (- sizeof_Footer) h1
                       in
                         if block_offset_bytes = - 1 then
                           WriteReturn (- 1)
                             (syslog
                                ''vhd_write: Error moving file pointer to last block: %m'' h2)
                         else
                           let block_offset =
                                 htonl (ucast (signed_drop_bit (sector_shift v) block_offset_bytes));
                               (readdone, h3) =
                                 physical_write BatEntry (bytes32 block_offset) 4 data_offset h2
                           in
                             if readdone \<noteq> 4 then
                               WriteReturn (- 1)
                                 (errno_or_E2BIG (syslog ''vhd_write: Error updating BAT: %m'' h3))
                             else
                               let new_block_buf =
                                     replicate (unat (sector_size v + block_size v)) 0 @ Footer v;
                                   (readdone, h4) =
                                     physical_write NewBlock new_block_buf
                                       (sector_size v + block_size v + sizeof_Footer)
                                       block_offset_bytes h3
                               in
                                 if readdone \<noteq> (sector_size v + block_size v) + sizeof_Footer then
                                   WriteReturn (- 1)
                                     (errno_or_E2BIG
                                        (syslog ''vhd_write: Error writing new block: %m'' h4))
                                 else
                                   vhd_write_data v h4 io block_offset in_block_offset
                                     first_size second_size second_offset)
              else
                vhd_write_data v h1 io block_offset in_block_offset
                  first_size second_size second_offset)"

partial_function (option) vhd_write ::
  "vhd \<Rightarrow> host \<Rightarrow> byte list \<Rightarrow> nat \<Rightarrow> u64 \<Rightarrow> u64 \<Rightarrow> (u64 \<times> host) option" where
  "vhd_write v h mem p sz offset =
     (case vhd_write_part v h mem p sz offset of
        WriteUndefined \<Rightarrow> None
      | WriteReturn r h' \<Rightarrow> Some (r, h')
      | WriteTail writedone h' first_size second_size second_offset \<Rightarrow>
          Option.bind
            (vhd_write v h' mem (p + unat first_size) second_size second_offset)
            (\<lambda>(second_write, h'').
               if second_write = - 1 then Some (- 1, h'')
               else Some (writedone + second_write, h'')))"

subsection \<open>The server: buffer, logical layer, protocol engine\<close>

text \<open>
  The globals of the server. \<open>rx\<close> holds the bytes the client still sends before it
  closes the connection, \<open>tx\<close> the bytes sent to the client; \<open>peer_open n\<close> tells
  whether a write succeeds once \<open>n\<close> bytes have been sent. \<^verbatim>\<open>safe_read\<close> and
  \<^verbatim>\<open>safe_write\<close> (safeio.h, not among the sources) transfer the whole size or fail.
  \<^verbatim>\<open>buf2\<close> is only ever filled and written out in \<open>vhd_write_data\<close> and is not kept
  in the state.
\<close>

record info_resp =
  file_size :: u64
  req_alignment :: u64
  flags :: u64

record server =
  buffer_size :: u64
  buf :: "byte list"
  shm_mode :: bool
  drv_mode :: bool
  vhd_mode :: bool
  image_offset :: u64
  devio_info :: info_resp
  vhd_globals :: vhd
  host :: host
  rx :: "byte list"
  tx :: "byte list"
  peer_open :: "nat \<Rightarrow> bool"

text \<open>
  Modelled from the spec: imdproxy.h is not among the sources. The spec names
  \<open>READ_ONLY\<close> as the only defined bit of \<open>flags\<close> and \<open>INFO\<close>, \<open>READ\<close>, \<open>WRITE\<close> as
  the request codes; their values are taken as \<open>1\<close> and \<open>1, 2, 3\<close>. Every field on the
  wire is a 64-bit integer in host byte order.
\<close>

definition IMDPROXY_FLAG_RO :: u64 where "IMDPROXY_FLAG_RO = 1"
definition IMDPROXY_REQ_INFO :: u64 where "IMDPROXY_REQ_INFO = 1"
definition IMDPROXY_REQ_READ :: u64 where "IMDPROXY_REQ_READ = 2"
definition IMDPROXY_REQ_WRITE :: u64 where "IMDPROXY_REQ_WRITE = 3"

definition load64 :: "byte list \<Rightarrow> u64" where
  "load64 bs = foldr (\<lambda>b w. ucast b OR push_bit 8 w) (take 8 bs) 0"

definition bytes64 :: "u64 \<Rightarrow> byte list" where
  "bytes64 w = map (\<lambda>i. ucast (drop_bit (8 * i) w)) [0..<8]"

text \<open>\<^verbatim>\<open>IMDPROXY_READ_RESP\<close>, \<^verbatim>\<open>IMDPROXY_WRITE_RESP\<close>: \<open>errorno\<close>, then \<open>length\<close>.\<close>

definition resp_block :: "u64 \<Rightarrow> u64 \<Rightarrow> byte list" where
  "resp_block errorno len = bytes64 errorno @ bytes64 len"

definition info_block :: "info_resp \<Rightarrow> byte list" where
  "info_block i = bytes64 (file_size i) @ bytes64 (req_alignment i) @ bytes64 (flags i)"

definition slog :: "string \<Rightarrow> server \<Rightarrow> server" where
  "slog msg s = s\<lparr>host := syslog msg (host s)\<rparr>"

text \<open>
  \<^verbatim>\<open>comm_read\<close>, \<^verbatim>\<open>comm_write\<close>, \<^verbatim>\<open>comm_flush\<close>, lines 656-683. Without
  \<^verbatim>\<open>_WIN32\<close>, \<^verbatim>\<open>shm_read\<close>, \<^verbatim>\<open>shm_write\<close>, \<^verbatim>\<open>shm_flush\<close> and
  \<^verbatim>\<open>drv_flush\<close> return 0 (lines 560-582). \<open>comm_read\<close> gives the bytes read, or
  \<open>None\<close> for the result 0.
\<close>

definition comm_read :: "nat \<Rightarrow> server \<Rightarrow> byte list option \<times> server" where
  "comm_read n s =
     (if shm_mode s \<or> drv_mode s then (None, s)
      else if n \<le> length (rx s) then (Some (take n (rx s)), s\<lparr>rx := drop n (rx s)\<rparr>)
      else (None, s\<lparr>rx := []\<rparr>))"

definition comm_write :: "byte list \<Rightarrow> server \<Rightarrow> bool \<times> server" where
  "comm_write io s =
     (if shm_mode s \<or> drv_mode s then (False, s)
      else if peer_open s (length (tx s)) then (True, s\<lparr>tx := tx s @ io\<rparr>)
      else (False, s))"

definition comm_flush :: "server \<Rightarrow> bool" where
  "comm_flush s = (if shm_mode s then False else if drv_mode s then False else True)"

text \<open>
  \<^verbatim>\<open>buf_realloc(new_size)\<close>, lines 586-654, without the \<^verbatim>\<open>_WIN32\<close> branch.
  \<^verbatim>\<open>((safeio_size_t)-1) >> 1\<close> is \<open>drop_bit 1 (- 1)\<close>. \<open>buffer_size\<close> is assigned
  before the two calls of \<^verbatim>\<open>malloc\<close>; when one fails the old buffers stay.
\<close>

definition malloc :: "host \<Rightarrow> nat \<Rightarrow> byte list option" where
  "malloc h n = (if alloc_ok h n then Some (map (garbage h) [0..<n]) else None)"

definition buf_realloc :: "u64 \<Rightarrow> server \<Rightarrow> server" where
  "buf_realloc new_size s =
     (if shm_mode s then s
      else
        let new_size = (if new_size > drop_bit 1 (- 1) then drop_bit 1 (- 1) else new_size);
            s1 = s\<lparr>buffer_size := new_size\<rparr>
        in case malloc (host s1) (unat (buffer_size s1)) of
             None \<Rightarrow> slog ''Failed allocating new buffer: %m'' s1
           | Some new_buf \<Rightarrow> s1\<lparr>buf := new_buf\<rparr>)"

text \<open>
  Reading the journal of a call. \<open>traced h h' evs\<close>: from \<open>h\<close> to \<open>h'\<close> the calls
  \<open>evs\<close> were made, and the file is what they have made of it. A write other than that
  of the caller's data is \<open>meta_short\<close> when its count is not the requested size; the
  write of the caller's data is \<open>payload_failed\<close> when it returns \<open>-1\<close>. \<open>failing\<close>
  says that such events make the result \<open>-1\<close>, \<open>clean\<close> that there are none.
  \<open>written\<close> is the sum of the counts that the writes of the caller's data have
  returned.
\<close>

fun payload_count :: "io_event \<Rightarrow> u64" where
  "payload_count (PRead offset sz r) = 0"
| "payload_count (PWrite tag offset sz r data) = (if tag = Payload then r else 0)"

definition written :: "io_event list \<Rightarrow> u64" where
  "written evs = sum_list (map payload_count evs)"







text \<open>
  \<^verbatim>\<open>logical_read\<close> and \<^verbatim>\<open>logical_write\<close>, lines 965-981, called with
  \<^verbatim>\<open>io_ptr = buf\<close>. The result is the count and the server with the buffer and the
  host updated; \<open>None\<close> when the call does not return or leaves the buffer (a write of
  more bytes than the buffer holds reads past it).
\<close>

definition logical_read :: "u64 \<Rightarrow> u64 \<Rightarrow> server \<Rightarrow> (u64 \<times> server) option" where
  "logical_read sz offset s =
     (if vhd_mode s then
        map_option (\<lambda>(r, mem, h). (r, s\<lparr>buf := mem, host := h\<rparr>))
          (vhd_read (vhd_globals s) (host s) (buf s) 0 sz offset)
      else
        let (r, data, h) = physical_read sz offset (host s)
        in map_option (\<lambda>mem. (r, s\<lparr>buf := mem, host := h\<rparr>)) (store (buf s) 0 data))"

definition logical_write :: "u64 \<Rightarrow> u64 \<Rightarrow> server \<Rightarrow> (u64 \<times> server) option" where
  "logical_write sz offset s =
     (if vhd_mode s then
        map_option (\<lambda>(r, h). (r, s\<lparr>host := h\<rparr>))
          (vhd_write (vhd_globals s) (host s) (buf s) 0 sz offset)
      else if length (buf s) < unat sz then None
      else
        let (r, h) = physical_write Payload (buf s) sz offset (host s)
        in Some (r, s\<lparr>host := h\<rparr>))"

text \<open>\<^verbatim>\<open>send_info\<close>, lines 685-699. The result pairs the C result with the server.\<close>

definition send_info :: "server \<Rightarrow> bool \<times> server" where
  "send_info s =
     (case comm_write (info_block (devio_info s)) s of
        (False, s1) \<Rightarrow> (False, s1)
      | (True, s1) \<Rightarrow>
          if \<not> comm_flush s1 then (False, slog ''Error flushing comm data: %m'' s1)
          else (True, s1))"

text \<open>
  \<^verbatim>\<open>read_data\<close>, lines 983-1058, in consecutive pieces. \<open>read_grow\<close> is lines
  998-1001: grow the buffer for a request longer than \<open>buffer_size\<close>; \<open>read_clip\<close> is
  lines 1003-1004, the size to serve; \<open>read_prepare\<close> is lines 998-1011, these two and
  \<^verbatim>\<open>memset(buf, 0, size)\<close>: it gives the size and the server, or \<open>None\<close> when the fill
  leaves the buffer. \<open>read_respond\<close> is lines 1016-1057: build and send the response.
  \<^verbatim>\<open>resp_block.errorno = errno\<close> converts the \<^verbatim>\<open>int\<close> to the 64-bit field.
\<close>

definition read_grow :: "u64 \<Rightarrow> server \<Rightarrow> server" where
  "read_grow req_length s1 =
     (if req_length > buffer_size s1 then buf_realloc req_length s1 else s1)"

definition read_clip :: "u64 \<Rightarrow> server \<Rightarrow> u64" where
  "read_clip req_length s2 =
     (if req_length < buffer_size s2 then req_length else buffer_size s2)"

definition read_prepare :: "u64 \<Rightarrow> server \<Rightarrow> (u64 \<times> server) option" where
  "read_prepare req_length s1 =
     (let s2 = read_grow req_length s1;
          sz = read_clip req_length s2
      in map_option (\<lambda>mem. (sz, s2\<lparr>buf := mem\<rparr>)) (memset (buf s2) 0 0 (unat sz)))"

definition read_respond :: "u64 \<Rightarrow> u64 \<Rightarrow> u64 \<Rightarrow> server \<Rightarrow> bool \<times> server" where
  "read_respond req_length sz readdone s4 =
     (let (errorno, len, s5) =
            (if readdone = - 1 then
               (of_int (errno (host s4)), 0, slog ''Device read: %m'' s4)
             else
               (0, sz, if req_length \<noteq> readdone then slog ''Partial read'' s4 else s4))
      in
        case comm_write (resp_block errorno len) s5 of
          (False, s6) \<Rightarrow> (False, slog ''Warning: I/O stream inconsistency.'' s6)
        | (True, s6) \<Rightarrow>
            (case (if errorno = 0 then comm_write (take (unat len) (buf s6)) s6
                   else (True, s6)) of
               (False, s7) \<Rightarrow> (False, slog ''Error sending read response to caller.'' s7)
             | (True, s7) \<Rightarrow>
                 if \<not> comm_flush s7 then (False, slog ''Error flushing comm data: %m'' s7)
                 else (True, s7)))"

definition read_data :: "server \<Rightarrow> (bool \<times> server) option" where
  "read_data s =
     (case comm_read 16 s of
        (None, s1) \<Rightarrow> Some (False, slog ''Error reading request header.'' s1)
      | (Some req, s1) \<Rightarrow>
          let req_offset = load64 req;
              req_length = load64 (drop 8 req)
          in
            case read_prepare req_length s1 of
              None \<Rightarrow> None
            | Some (sz, s3) \<Rightarrow>
                map_option (\<lambda>(readdone, s4). read_respond req_length sz readdone s4)
                  (logical_read sz (image_offset s3 + req_offset) s3))"

text \<open>
  \<^verbatim>\<open>write_data\<close>, lines 1060-1147; \<open>None\<close> when the payload received does not fit
  the buffer or the logical write does not return. \<open>write_execute\<close> is lines 1089-1131: the
  test of the read-only flag, else the logical write; it gives \<open>errorno\<close>, \<open>length\<close>
  and the server, which \<open>write_result\<close> (lines 1099-1127) makes from the count of the
  logical write. \<open>write_respond\<close> is lines 1133-1146. \<^verbatim>\<open>resp_block.length =
  writedone\<close> keeps the 64 bits of the signed count.
\<close>

definition write_result :: "u64 \<Rightarrow> u64 \<Rightarrow> server \<Rightarrow> u64 \<times> u64 \<times> server" where
  "write_result req_length writedone s4 =
     (let (errorno, len, s5) =
            (if writedone = - 1 then
               (of_int (errno (host s4)), writedone, slog ''Device write: %m'' s4)
             else (0, writedone, s4))
      in (errorno, len,
          if req_length \<noteq> len then
            (if sint writedone < 0 then slog ''Write error'' s5
             else slog ''Partial write'' s5)
          else s5))"

definition write_execute :: "u64 \<Rightarrow> u64 \<Rightarrow> server \<Rightarrow> (u64 \<times> u64 \<times> server) option" where
  "write_execute req_offset req_length s3 =
     (if flags (devio_info s3) AND IMDPROXY_FLAG_RO \<noteq> 0 then
        Some (of_int EBADF, 0, slog ''Device write attempt on read-only device.'' s3)
      else
        map_option (\<lambda>(writedone, s4). write_result req_length writedone s4)
          (logical_write req_length (image_offset s3 + req_offset) s3))"

definition write_respond :: "u64 \<Rightarrow> u64 \<Rightarrow> server \<Rightarrow> bool \<times> server" where
  "write_respond errorno len s6 =
     (case comm_write (resp_block errorno len) s6 of
        (False, s7) \<Rightarrow> (False, slog ''Error sending write response to caller.'' s7)
      | (True, s7) \<Rightarrow>
          if \<not> comm_flush s7 then (False, slog ''Error flushing comm data: %m'' s7)
          else (True, s7))"

definition write_data :: "server \<Rightarrow> (bool \<times> server) option" where
  "write_data s =
     (case comm_read 16 s of
        (None, s1) \<Rightarrow> Some (False, s1)
      | (Some req, s1) \<Rightarrow>
          let req_offset = load64 req;
              req_length = load64 (drop 8 req)
          in
            if req_length > buffer_size s1 then
              Some (False, slog ''Too big block write requested: %u bytes.'' s1)
            else
              case comm_read (unat req_length) s1 of
                (None, s2) \<Rightarrow> Some (False, slog ''Warning: I/O stream inconsistency.'' s2)
              | (Some payload, s2) \<Rightarrow>
                  (case store (buf s2) 0 payload of
                     None \<Rightarrow> None
                   | Some mem \<Rightarrow>
                       map_option (\<lambda>(errorno, len, s6). write_respond errorno len s6)
                         (write_execute req_offset req_length (s2\<lparr>buf := mem\<rparr>))))"

text \<open>
  One turn of the loop of \<^verbatim>\<open>do_comm\<close>, lines 2185-2218: \<open>Return n\<close> when
  \<^verbatim>\<open>do_comm\<close> returns \<open>n\<close>, \<open>Again\<close> when the loop goes round. \<open>serves\<close> is the
  loop: the servers reached after any number of turns.
\<close>

datatype turn = Return int server | Again server

definition do_comm_turn :: "server \<Rightarrow> turn option" where
  "do_comm_turn s =
     (case comm_read 8 s of
        (None, s1) \<Rightarrow> Some (Return 0 s1)
      | (Some bytes, s1) \<Rightarrow>
          let req = load64 bytes
          in
            if req = IMDPROXY_REQ_INFO then
              (case send_info s1 of
                 (False, s2) \<Rightarrow> Some (Return 1 s2)
               | (True, s2) \<Rightarrow> Some (Again s2))
            else if req = IMDPROXY_REQ_READ then
              map_option (\<lambda>(ok, s2). if ok then Again s2 else Return 1 s2) (read_data s1)
            else if req = IMDPROXY_REQ_WRITE then
              map_option (\<lambda>(ok, s2). if ok then Again s2 else Return 1 s2) (write_data s1)
            else
              (case comm_write (bytes64 (of_int ENODEV)) s1 of
                 (False, s2) \<Rightarrow> Some (Return 1 (slog ''stdout: %m'' s2))
               | (True, s2) \<Rightarrow> Some (Again s2)))"

inductive serves :: "server \<Rightarrow> server \<Rightarrow> bool" where
  serves_refl: "serves s s"
| serves_turn: "serves s s' \<Longrightarrow> do_comm_turn s' = Some (Again s'') \<Longrightarrow> serves s s''"

text \<open>The server a turn leaves behind.\<close>

fun turn_server :: "turn \<Rightarrow> server" where
  "turn_server (Return n s) = s"
| "turn_server (Again s) = s"

text \<open>
  The fields of the request header waiting in \<open>rx\<close> (after the request code has been
  read): \<open>offset\<close>, then \<open>length\<close>.
\<close>

definition req_offset_of :: "server \<Rightarrow> u64" where
  "req_offset_of s = load64 (take 16 (rx s))"

definition req_length_of :: "server \<Rightarrow> u64" where
  "req_length_of s = load64 (drop 8 (take 16 (rx s)))"

text \<open>
  What \<open>read_data\<close> makes of that header, after the 16 bytes of the header have been
  taken from \<open>rx\<close>: \<open>read_grown\<close> is the server after \<open>read_grow\<close>, \<open>read_size\<close> the
  size served, and \<open>read_ready\<close> the server on which the logical read is called, the one
  \<open>read_prepare\<close> gives (where the fill leaves the buffer there is none, and
  \<open>read_ready\<close> is \<open>read_grown\<close>).
\<close>

definition read_grown :: "server \<Rightarrow> server" where
  "read_grown s = read_grow (req_length_of s) (s\<lparr>rx := drop 16 (rx s)\<rparr>)"

definition read_size :: "server \<Rightarrow> u64" where
  "read_size s = read_clip (req_length_of s) (read_grown s)"

definition read_ready :: "server \<Rightarrow> server" where
  "read_ready s =
     (case read_prepare (req_length_of s) (s\<lparr>rx := drop 16 (rx s)\<rparr>) of
        None \<Rightarrow> read_grown s
      | Some (sz, s3) \<Rightarrow> s3)"

subsection \<open>A small dynamic VHD\<close>

text \<open>
  The image used in the examples: the footer copy (512 bytes), the header (1024 bytes),
  one sector at 1536 with a block allocation table of two sparse entries, and the footer.
  Blocks are 512 bytes, the disk has two of them.
\<close>

definition ex_footer :: "byte list" where
  "ex_footer = replicate 512 0x63"

definition ex_image :: "byte list" where
  "ex_image = ex_footer @ replicate 1024 0 @ replicate 8 0xFF @ replicate 504 0 @ ex_footer"

definition ex_vhd :: vhd where
  "ex_vhd = \<lparr>block_size = 512, sector_size = 512, table_offset = 1536, block_shift = 9,
      sector_shift = 9, current_size = 1024, Footer = ex_footer\<rparr>"

definition ex_host :: "byte list \<Rightarrow> host" where
  "ex_host bytes = \<lparr>image_file = bytes, errno = 0, rd_fault = (\<lambda>_ _. Complete),
      wr_fault = (\<lambda>_ _. Complete), alloc_ok = (\<lambda>_. True), garbage = (\<lambda>_. 0xCD),
      journal = [], stderr = []\<rparr>"

text \<open>
  A server on that image over a socket, with a buffer of 16 bytes; \<open>bytes\<close> is what the
  client sends after the request code. \<open>ex_read_only\<close> is the same server started
  with \<^verbatim>\<open>-r\<close>.
\<close>

definition ex_server :: "byte list \<Rightarrow> server" where
  "ex_server bytes = \<lparr>buffer_size = 16, buf = replicate 16 0xEE, shm_mode = False,
      drv_mode = False, vhd_mode = True, image_offset = 0,
      devio_info = \<lparr>file_size = 1024, req_alignment = 1, flags = 0\<rparr>,
      vhd_globals = ex_vhd, host = ex_host ex_image, rx = bytes, tx = [],
      peer_open = (\<lambda>_. True)\<rparr>"

definition ex_read_only :: "byte list \<Rightarrow> server" where
  "ex_read_only bytes =
     (ex_server bytes)\<lparr>devio_info := \<lparr>file_size = 1024, req_alignment = 1, flags = 1\<rparr>\<rparr>"

text \<open>
  The same server on a host that grants no allocation of \<open>2^32\<close> bytes or more.
\<close>

definition ex_low_memory :: "byte list \<Rightarrow> server" where
  "ex_low_memory bytes =
     (ex_server bytes)\<lparr>host := (ex_host ex_image)\<lparr>alloc_ok := (\<lambda>n. n < 2 ^ 32)\<rparr>\<rparr>"

text \<open>A server on a raw image of four bytes (no VHD).\<close>

definition ex_raw :: "byte list \<Rightarrow> server" where
  "ex_raw bytes = (ex_server bytes)\<lparr>vhd_mode := False, host := ex_host [1, 2, 3, 4]\<rparr>"



text \<open>
  The small image after block 0 has been allocated at sector 4 and filled with \<open>0x11\<close>,
  and a host on which the write at one offset has the given outcome.
\<close>

definition ex_written :: "byte list" where
  "ex_written = ex_footer @ replicate 1024 0 @ [0, 0, 0, 4] @ replicate 4 0xFF @ replicate 504 0
     @ replicate 512 0 @ replicate 512 0x11 @ ex_footer"


section \<open>Properties\<close>

subsection \<open>C7: the big-endian 64-bit load\<close>

text \<open>
  C7. The claim: for every 8-byte array the load returns the sum of \<open>b[i] * 2^(8*(7-i))\<close>,
  also for bytes from \<open>0x80\<close> on. The code evaluated at the bytes of CurrentSize = 2 GiB,
  \<open>00 00 00 00 80 00 00 00\<close>: the byte \<open>0x80\<close> is read as \<open>-128\<close>, its sign fills the upper
  32 bits and the load returns \<open>0xFFFFFFFF80000000\<close>, where the sum is \<open>0x80000000\<close>.
\<close>

theorem GetBigEndian64_sign_extends:
  "GetBigEndian64 [0, 0, 0, 0, 0x80, 0, 0, 0] = 0xFFFFFFFF80000000
   \<and> be64_value [0, 0, 0, 0, 0x80, 0, 0, 0] = 0x80000000"
  by (simp add: GetBigEndian64_def be64_value_def upt_rec lessThan_nat_numeral lessThan_Suc)

subsection \<open>The physical layer and the buffer\<close>

text \<open>A fill or a copy that stays inside the buffer keeps its length.\<close>

lemma memset_Some:
  assumes "memset mem p c n = Some m"
  shows "length m = length mem" and "p + n \<le> length mem"
    and "m = take p mem @ replicate n c @ drop (p + n) mem"
  using assms by (auto simp add: memset_def split: if_splits)

lemma store_Some:
  assumes "store mem p data = Some m"
  shows "length m = length mem" and "p + length data \<le> length mem"
    and "m = take p mem @ data @ drop (p + length data) mem"
  using assms by (auto simp add: store_def split: if_splits)

lemma memset_inside: "p + n \<le> length mem \<Longrightarrow> \<exists>m. memset mem p c n = Some m"
  by (simp add: memset_def)

lemma store_inside: "p + length data \<le> length mem \<Longrightarrow> \<exists>m. store mem p data = Some m"
  by (simp add: store_def)

lemma physical_read_cases:
  assumes "physical_read sz off h = (r, data, h')"
  shows "length data \<le> unat sz"
    and "image_file h' = image_file h" and "rd_fault h' = rd_fault h"
    and "wr_fault h' = wr_fault h" and "alloc_ok h' = alloc_ok h" and "garbage h' = garbage h"
    and "stderr h' = stderr h" and "journal h' = journal h @ [PRead off sz r]"
    and "r = - 1 \<and> data = [] \<or> r = of_nat (length data)"
  using assms
  by (auto simp add: physical_read_def Let_def split: if_splits outcome.splits)

subsection \<open>Splitting a request at the block boundary\<close>

text \<open>
  With a block size other than 0 the first part is never longer than the request, and
  after a split it is not empty: the tail is shorter than the request.
\<close>

lemma split_sizes:
  fixes bs ib sz :: u64
  assumes "bs \<noteq> 0" "ib \<le> bs - 1" "sz + ib > bs"
  shows "bs - ib \<le> sz" and "bs - ib \<noteq> 0" and "ib < bs"
  using assms by unat_arith+

lemma vhd_read_part_tail:
  assumes "vhd_read_part v h mem p sz offset = ReadTail readdone mem' h' fs ss so"
  shows "sz + (offset AND (block_size v - 1)) > block_size v"
    and "fs = block_size v - (offset AND (block_size v - 1))"
    and "ss = sz - fs" and "so = offset + fs" and "ss > 0"
  using assms
  by (auto simp add: vhd_read_part_def vhd_read_finish_def Let_def
      split: if_splits prod.splits option.splits)

lemma vhd_read_part_tail_sizes:
  assumes "vhd_read_part v h mem p sz offset = ReadTail readdone mem' h' fs ss so"
    and "block_size v \<noteq> 0"
  shows "unat fs + unat ss = unat sz" and "0 < unat fs" and "unat ss < unat sz"
proof -
  note t = vhd_read_part_tail [OF assms(1)]
  have le: "offset AND (block_size v - 1) \<le> block_size v - 1" by (rule word_and_le1)
  from split_sizes [OF assms(2) le t(1)] t(2) have fs: "fs \<le> sz" "fs \<noteq> 0" by simp_all
  then show "unat fs + unat ss = unat sz" using t(3) by (simp add: unat_sub word_le_nat_alt)
  from fs show "0 < unat fs" by (simp add: unat_gt_0)
  with fs t(3) show "unat ss < unat sz" by (simp add: unat_sub word_le_nat_alt)
qed

lemma vhd_read_part_first_size:
  assumes "block_size v \<noteq> 0"
  shows "unat (if sz + (offset AND (block_size v - 1)) > block_size v
               then block_size v - (offset AND (block_size v - 1)) else sz) \<le> unat sz"
proof -
  have le: "offset AND (block_size v - 1) \<le> block_size v - 1" by (rule word_and_le1)
  show ?thesis
    using split_sizes(1) [OF assms le] by (auto simp add: word_le_nat_alt)
qed

text \<open>A part that returns has kept the length of the buffer.\<close>

lemma vhd_read_part_length:
  shows "vhd_read_part v h mem p sz offset = ReadReturn r mem' h' \<Longrightarrow> length mem' = length mem"
    and "vhd_read_part v h mem p sz offset = ReadTail rd mem' h' fs ss so
         \<Longrightarrow> length mem' = length mem"
  by (auto simp add: vhd_read_part_def vhd_read_finish_def Let_def
      split: if_splits prod.splits option.splits dest!: memset_Some(1) store_Some(1))

text \<open>
  With a block size other than 0, a part whose \<open>sz\<close> bytes lie inside the buffer stays
  inside the buffer.
\<close>

lemma vhd_read_part_inside:
  assumes rng: "p + unat sz \<le> length mem" and bs: "block_size v \<noteq> 0"
  shows "vhd_read_part v h mem p sz offset \<noteq> ReadUndefined"
proof -
  let ?ib = "offset AND (block_size v - 1)"
  let ?fs = "if sz + ?ib > block_size v then block_size v - ?ib else sz"
  have fs: "unat ?fs \<le> unat sz" by (rule vhd_read_part_first_size [OF bs])
  from memset_inside [OF rng] obtain mem1 where m1: "memset mem p 0 (unat sz) = Some mem1"
    by blast
  have st: "\<exists>m'. store m p d = Some m'"
    if "length m = length mem" "physical_read ?fs off' h0 = (r0, d, h0')" for m d off' h0 r0 h0'
  proof -
    from physical_read_cases(1) [OF that(2)] fs rng that(1) have "p + length d \<le> length m"
      by simp
    then show ?thesis by (rule store_inside)
  qed
  show ?thesis
  proof (cases "offset + sz > current_size v")
    case True
    then show ?thesis by (simp add: vhd_read_part_def)
  next
    case False
    obtain rb entry h1 where
      bat: "physical_read 4 (table_offset v + push_bit 2 (signed_drop_bit (block_shift v) offset)) h
              = (rb, entry, h1)"
      by (metis prod_cases3)
    let ?po = "push_bit (sector_shift v) (ucast (ntohl (load32 entry))) + sector_size v + ?ib"
    obtain r1 d1 h2 where p1: "physical_read ?fs ?po h1 = (r1, d1, h2)" by (metis prod_cases3)
    obtain r2 d2 h3 where p2: "physical_read ?fs ?po h2 = (r2, d2, h3)" by (metis prod_cases3)
    from st [OF memset_Some(1) [OF m1] p1] obtain mem2 where m2: "store mem1 p d1 = Some mem2"
      by blast
    from store_Some(1) [OF m2] memset_Some(1) [OF m1] have "length mem2 = length mem" by simp
    from st [OF this p2] obtain mem3 where m3: "store mem2 p d2 = Some mem3" by blast
    from False bat m1 p1 p2 m2 m3 show ?thesis
      by (simp add: vhd_read_part_def vhd_read_finish_def Let_def)
  qed
qed

subsection \<open>The recursion of \<open>vhd_read\<close>\<close>

lemmas vhd_read_induct = vhd_read.raw_induct [rotated 1, consumes 1, case_names step]

lemmas vhd_write_induct = vhd_write.raw_induct [rotated 1, consumes 1, case_names step]

text \<open>A call of \<open>vhd_read\<close> that returns has kept the length of the buffer.\<close>

lemma vhd_read_length:
  assumes "vhd_read v h mem p sz offset = Some y"
  shows "length (fst (snd y)) = length mem"
  using assms
proof (induction v h mem p sz offset y rule: vhd_read_induct)
  case (step rec v h mem p sz offset y)
  show ?case
  proof (cases "vhd_read_part v h mem p sz offset")
    case (ReadReturn r mem' h')
    with step(2) have "y = (r, mem', h')" by simp
    with vhd_read_part_length(1) [OF ReadReturn] show ?thesis by simp
  next
    case (ReadTail rd mem' h' fs ss so)
    note len = vhd_read_part_length(2) [OF ReadTail]
    from step(2) ReadTail obtain y' where
      rec: "rec v h' mem' (p + unat fs) ss so = Some y'" and y: "fst (snd y) = fst (snd y')"
      by (auto simp add: bind_eq_Some_conv split: if_splits)
    from step(1) [OF rec] y len show ?thesis by simp
  next
    case ReadUndefined
    with step(2) show ?thesis by simp
  qed
qed

text \<open>
  With a block size other than 0, \<open>vhd_read\<close> of \<open>sz\<close> bytes that lie inside the buffer
  returns.
\<close>

lemma vhd_read_returns:
  assumes "block_size v \<noteq> 0" and "p + unat sz \<le> length mem"
  shows "\<exists>y. vhd_read v h mem p sz offset = Some y"
  using assms(2)
proof (induction "unat sz" arbitrary: h mem p sz offset rule: less_induct)
  case less
  show ?case
  proof (cases "vhd_read_part v h mem p sz offset")
    case (ReadReturn r mem' h')
    then show ?thesis by (subst vhd_read.simps) simp
  next
    case (ReadTail rd mem' h' fs ss so)
    note szs = vhd_read_part_tail_sizes [OF ReadTail assms(1)]
    from vhd_read_part_length(2) [OF ReadTail] szs(1) less(2)
    have "p + unat fs + unat ss \<le> length mem'" by simp
    from less(1) [OF szs(3) this] obtain y where
      "vhd_read v h' mem' (p + unat fs) ss so = Some y" by blast
    with ReadTail show ?thesis
      by (subst vhd_read.simps) (auto split: prod.splits)
  next
    case ReadUndefined
    with vhd_read_part_inside [OF less(2) assms(1)] show ?thesis by simp
  qed
qed

subsection \<open>Evaluation on the small image\<close>

lemmas ex_defs = ex_vhd_def ex_host_def ex_image_def ex_footer_def ex_server_def ex_read_only_def

lemmas io_defs = physical_read_def physical_write_def put_at_def lseek_end_def sizeof_Footer_def
  load32_def bytes32_def htonl_def ntohl_def syslog_def errno_or_E2BIG_def

lemmas vhd_write_defs = vhd_write_part_def vhd_write_data_def vhd_write_finish_def
  zero_scan.simps

subsection \<open>C1: a write of zeros to a sparse block\<close>

text \<open>
  C1. The claim: a write whose bytes are all zero, to a block whose BAT entry is
  \<open>0xFFFFFFFF\<close>, allocates nothing. The code evaluated on the small image, for 8 zero
  bytes at offset 0: the BAT entry of block 0 was \<open>FF FF FF FF\<close> and is \<open>00 00 00 04\<close>
  afterwards, and the file has grown from 2560 to 3584 bytes (a bitmap sector and a
  block). With \<open>first_size_nqwords = 1\<close> the loop condition of lines 825-828 is \<open>0\<close> at
  once, \<^verbatim>\<open>buf_ptr\<close> stays below the end and the skip of line 829 is not taken.
\<close>

theorem vhd_write_zeros_allocates:
  "\<exists>h'. vhd_write ex_vhd (ex_host ex_image) (replicate 8 0) 0 8 0 = Some (8, h')
     \<and> take 4 (drop 1536 ex_image) = replicate 4 0xFF
     \<and> take 4 (drop 1536 (image_file h')) = [0, 0, 0, 4]
     \<and> length ex_image = 2560 \<and> length (image_file h') = 3584"
  by (simp add: vhd_write.simps vhd_write_defs io_defs ex_defs Let_def)

subsection \<open>C3: the read of a block\<close>

text \<open>
  A request that ends beyond \<open>current_size\<close> (the sum taken in 64 bits, as the code
  takes it) returns 0: nothing is read, the buffer and the host are as they were.
\<close>

lemma vhd_read_clipped:
  assumes "offset + sz > current_size v"
  shows "vhd_read v h mem p sz offset = Some (0, mem, h)"
  using assms by (subst vhd_read.simps) (simp add: vhd_read_part_def)

text \<open>
  C3. The claim: for a block that is not sparse, one physical read of the part's size is
  issued at \<open>(ntohl(entry) << sector_shift) + sector_size + in_block\<close>. The code
  evaluated on the small image with block 0 allocated at sector 4, for 8 bytes at offset
  0: the entry is read at 1536, and the read of 8 bytes at \<open>4 * 512 + 512 + 0 = 2560\<close>
  is issued twice (lines 752 and 753); the count and the bytes are those of the second
  call.
\<close>

theorem vhd_read_reads_twice:
  "\<exists>h'. vhd_read ex_vhd (ex_host ex_written) (replicate 8 0xEE) 0 8 0
           = Some (8, replicate 8 0x11, h')
     \<and> journal h' = [PRead 1536 4 4, PRead 2560 8 8, PRead 2560 8 8]"
  by (simp add: vhd_read.simps vhd_read_part_def vhd_read_finish_def memset_def store_def
      io_defs ex_defs ex_written_def Let_def)

text \<open>
  The sum \<open>offset + size\<close> of the test at line 716 is taken in 64 bits. For the offset
  \<open>2^64 - 1\<close> (\<open>-1\<close> as \<^verbatim>\<open>off_t_64\<close>) and 2 bytes it is 1: the request is not
  clipped though it ends beyond \<open>current_size = 1024\<close>. The entry of block \<open>-1\<close> is
  read 4 bytes before the table, at 1532, one byte is read at \<open>0 + 512 + 511 = 1023\<close>,
  the tail is the first byte of block 0, and 2 is returned.
\<close>

lemma signed_drop_bit_minus_1: "signed_drop_bit 9 (- 1 :: u64) = - 1"
  by (rule bit_word_eqI, simp add: bit_simps)

lemma vhd_read_clip_wraps:
  "unat (0xFFFFFFFFFFFFFFFF :: u64) + unat (2 :: u64) > unat (current_size ex_vhd)
   \<and> (\<exists>h'. vhd_read ex_vhd (ex_host ex_image) (replicate 2 0xEE) 0 2 0xFFFFFFFFFFFFFFFF
               = Some (2, [0, 0], h')
          \<and> journal h' = [PRead 1532 4 4, PRead 1023 1 1, PRead 1023 1 1, PRead 1536 4 4])"
proof -
  let ?m = "0xFFFFFFFFFFFFFFFF :: u64"
  have m: "?m = - 1" by simp
  have 1: "unat ?m + unat (2 :: u64) > unat (current_size ex_vhd)"
    by (simp add: ex_vhd_def)
  have "\<exists>h1. vhd_read_part ex_vhd (ex_host ex_image) (replicate 2 0xEE) 0 2 ?m
               = ReadTail 1 [0, 0] h1 1 1 0
          \<and> journal h1 = [PRead 1532 4 4, PRead 1023 1 1, PRead 1023 1 1]
          \<and> image_file h1 = ex_image \<and> rd_fault h1 = (\<lambda>_ _. Complete)"
    by (simp add: vhd_read_part_def vhd_read_finish_def memset_def store_def
        signed_drop_bit_minus_1 push_bit_eq_mult io_defs ex_defs Let_def)
  then obtain h1 where p1: "vhd_read_part ex_vhd (ex_host ex_image) (replicate 2 0xEE) 0 2 ?m
               = ReadTail 1 [0, 0] h1 1 1 0"
    and j1: "journal h1 = [PRead 1532 4 4, PRead 1023 1 1, PRead 1023 1 1]"
    and i1: "image_file h1 = ex_image" "rd_fault h1 = (\<lambda>_ _. Complete)" by blast
  have "\<exists>h2. vhd_read_part ex_vhd h1 [0, 0] 1 1 0 = ReadReturn 1 [0, 0] h2
          \<and> journal h2 = journal h1 @ [PRead 1536 4 4]"
    using i1
    by (simp add: vhd_read_part_def vhd_read_finish_def memset_def store_def
        io_defs ex_defs Let_def)
  then obtain h2 where p2: "vhd_read_part ex_vhd h1 [0, 0] 1 1 0 = ReadReturn 1 [0, 0] h2"
    and j2: "journal h2 = journal h1 @ [PRead 1536 4 4]" by blast
  from p2 have "vhd_read ex_vhd h1 [0, 0] 1 1 0 = Some (1, [0, 0], h2)"
    by (subst vhd_read.simps) simp
  with p1 have "vhd_read ex_vhd (ex_host ex_image) (replicate 2 0xEE) 0 2 ?m
                  = Some (2, [0, 0], h2)"
    by (subst vhd_read.simps) simp
  with 1 j1 j2 show ?thesis by simp
qed

subsection \<open>C5: a write request on a read-only device\<close>

text \<open>
  C5, as the claim states it, fails for a request longer than the buffer: the test of
  line 1075 comes before the test of the read-only flag, the handler returns 0 and no
  response is sent. Here the buffer has 16 bytes and the request asks for 17.
\<close>

theorem write_data_read_only_counterexample:
  "flags (devio_info (ex_read_only ([0,0,0,0,0,0,0,0, 17,0,0,0,0,0,0,0] @ replicate 17 0xAA)))
     AND IMDPROXY_FLAG_RO \<noteq> 0
   \<and> map_option fst
        (write_data (ex_read_only ([0,0,0,0,0,0,0,0, 17,0,0,0,0,0,0,0] @ replicate 17 0xAA)))
       = Some False
   \<and> map_option (tx \<circ> snd)
        (write_data (ex_read_only ([0,0,0,0,0,0,0,0, 17,0,0,0,0,0,0,0] @ replicate 17 0xAA)))
       = Some []"
  by (simp add: write_data_def ex_defs comm_read_def slog_def syslog_def load64_def
      IMDPROXY_FLAG_RO_def Let_def)

text \<open>
  C5, amended. With the read-only flag set: whenever \<open>write_data\<close> returns, the image
  file has not been touched (no physical read or write is even issued), and when the
  header and the payload of a request no longer than the buffer have arrived and the
  client still listens, the response is \<open>errorno = EBADF\<close>, \<open>length = 0\<close>. And
  \<open>write_data\<close> does return when the buffer holds \<open>buffer_size\<close> bytes, as it does
  in every state of a session (\<^verbatim>\<open>do_comm\<close> allocates it so at line 2084, and every
  request that returns leaves it so: lemma \<open>buffer_holds\<close> below).
\<close>

theorem write_data_read_only:
  assumes ro: "flags (devio_info s) AND IMDPROXY_FLAG_RO \<noteq> 0"
  shows "(unat (buffer_size s) \<le> length (buf s) \<longrightarrow> (\<exists>ok s'. write_data s = Some (ok, s')))
     \<and> (\<forall>ok s'. write_data s = Some (ok, s') \<longrightarrow>
          image_file (host s') = image_file (host s) \<and> journal (host s') = journal (host s)
          \<and> (\<not> shm_mode s \<and> \<not> drv_mode s \<and> 16 \<le> length (rx s)
              \<and> req_length_of s \<le> buffer_size s
              \<and> 16 + unat (req_length_of s) \<le> length (rx s)
              \<and> peer_open s (length (tx s))
              \<longrightarrow> ok \<and> tx s' = tx s @ resp_block (of_int EBADF) 0))"
proof -
  consider (closed) "shm_mode s \<or> drv_mode s"
    | (short) "\<not> shm_mode s" "\<not> drv_mode s" "length (rx s) < 16"
    | (big) "\<not> shm_mode s" "\<not> drv_mode s" "16 \<le> length (rx s)"
        "req_length_of s > buffer_size s"
    | (cut) "\<not> shm_mode s" "\<not> drv_mode s" "16 \<le> length (rx s)"
        "req_length_of s \<le> buffer_size s" "length (rx s) < 16 + unat (req_length_of s)"
    | (served) "\<not> shm_mode s" "\<not> drv_mode s" "16 \<le> length (rx s)"
        "req_length_of s \<le> buffer_size s" "16 + unat (req_length_of s) \<le> length (rx s)"
    by (meson not_le)
  then show ?thesis
  proof cases
    case closed
    then show ?thesis by (auto simp add: write_data_def comm_read_def)
  next
    case short
    then show ?thesis by (auto simp add: write_data_def comm_read_def)
  next
    case big
    then have "\<not> req_length_of s \<le> buffer_size s" by simp
    with big show ?thesis
      by (simp add: write_data_def comm_read_def req_length_of_def slog_def syslog_def Let_def;
          blast?)
  next
    case cut
    then have "\<not> unat (req_length_of s) \<le> length (rx s) - 16"
      and "\<not> buffer_size s < req_length_of s" by (linarith, simp)
    with cut show ?thesis
      by (auto simp add: write_data_def comm_read_def req_length_of_def slog_def syslog_def
          Let_def)
  next
    case served
    then have a: "unat (req_length_of s) \<le> length (rx s) - 16"
      and b: "\<not> buffer_size s < req_length_of s" by (linarith, simp)
    let ?payload = "take (unat (req_length_of s)) (drop 16 (rx s))"
    have ret: "\<exists>ok s'. write_data s = Some (ok, s')"
      if fit: "unat (buffer_size s) \<le> length (buf s)"
    proof -
      from served(4) fit have "unat (req_length_of s) \<le> length (buf s)"
        by (simp add: word_le_nat_alt)
      with a have "0 + length ?payload \<le> length (buf s)" by simp
      from store_inside [OF this] obtain mem where "store (buf s) 0 ?payload = Some mem"
        by blast
      with served ro a b show ?thesis
        by (simp add: write_data_def write_execute_def write_respond_def comm_read_def
            comm_write_def comm_flush_def req_length_of_def slog_def syslog_def Let_def;
            blast?)
    qed
    have props: "image_file (host s') = image_file (host s)
          \<and> journal (host s') = journal (host s)
          \<and> (peer_open s (length (tx s))
              \<longrightarrow> ok \<and> tx s' = tx s @ resp_block (of_int EBADF) 0)"
      if w: "write_data s = Some (ok, s')" for ok s'
    proof (cases "store (buf s) 0 ?payload")
      case None
      with served a b w show ?thesis
        by (simp add: write_data_def comm_read_def req_length_of_def Let_def)
    next
      case (Some mem)
      with served ro a b w show ?thesis
        by (auto simp add: write_data_def write_execute_def write_respond_def comm_read_def
            comm_write_def comm_flush_def req_length_of_def slog_def syslog_def Let_def
            split: if_splits)
    qed
    from ret props show ?thesis by blast
  qed
qed

theorem write_data_read_only_witness:
  "\<exists>ok s'. write_data (ex_read_only ([0,0,0,0,0,0,0,0, 8,0,0,0,0,0,0,0] @ replicate 8 0xAA))
             = Some (ok, s')
      \<and> image_file (host s') = ex_image \<and> ok \<and> tx s' = resp_block (of_int EBADF) 0"
proof -
  let ?s = "ex_read_only ([0,0,0,0,0,0,0,0, 8,0,0,0,0,0,0,0] @ replicate 8 0xAA)"
  have ro: "flags (devio_info ?s) AND IMDPROXY_FLAG_RO \<noteq> 0"
    by (simp add: ex_read_only_def IMDPROXY_FLAG_RO_def)
  have fit: "unat (buffer_size ?s) \<le> length (buf ?s)"
    by (simp add: ex_read_only_def ex_server_def)
  have pre: "\<not> shm_mode ?s \<and> \<not> drv_mode ?s \<and> 16 \<le> length (rx ?s)
      \<and> req_length_of ?s \<le> buffer_size ?s \<and> 16 + unat (req_length_of ?s) \<le> length (rx ?s)
      \<and> peer_open ?s (length (tx ?s))"
    by (simp add: ex_read_only_def ex_server_def req_length_of_def load64_def)
  have img: "image_file (host ?s) = ex_image" "tx ?s = []"
    by (simp_all add: ex_read_only_def ex_server_def ex_host_def)
  from write_data_read_only [OF ro] fit obtain ok s' where w: "write_data ?s = Some (ok, s')"
    by blast
  from write_data_read_only [OF ro] w pre img
  have "image_file (host s') = ex_image \<and> ok \<and> tx s' = resp_block (of_int EBADF) 0"
    by fastforce
  with w show ?thesis by blast
qed

subsection \<open>The size of the buffer\<close>

text \<open>
  \<open>buffer_size\<close> is assigned in \<open>buf_realloc\<close> only, which \<open>read_grow\<close> calls
  with a size above \<open>buffer_size\<close>. The new size is that size, or the bound
  \<^verbatim>\<open>((safeio_size_t)-1) >> 1\<close> if the size is above it.
\<close>

lemma buf_realloc_buffer_size:
  "buffer_size (buf_realloc n s) =
     (if shm_mode s then buffer_size s
      else if n > drop_bit 1 (- 1) then drop_bit 1 (- 1) else n)"
  by (simp add: buf_realloc_def Let_def slog_def split: option.splits)

lemma buf_realloc_grows:
  assumes "buffer_size s < n" "buffer_size s \<le> drop_bit 1 (- 1)"
  shows "buffer_size s \<le> buffer_size (buf_realloc n s)"
    and "buffer_size (buf_realloc n s) \<le> drop_bit 1 (- 1)"
  using assms by (auto simp add: buf_realloc_buffer_size)

lemma read_grow_buffer_size:
  assumes "buffer_size s \<le> drop_bit 1 (- 1)"
  shows "buffer_size s \<le> buffer_size (read_grow n s)"
    and "buffer_size (read_grow n s) \<le> drop_bit 1 (- 1)"
  using assms buf_realloc_grows [of s n]
  by (auto simp add: read_grow_def)

lemma read_prepare_Some:
  assumes "read_prepare n s = Some (sz, s3)"
  shows "sz = read_clip n (read_grow n s)"
    and "\<exists>mem. memset (buf (read_grow n s)) 0 0 (unat sz) = Some mem
               \<and> s3 = (read_grow n s)\<lparr>buf := mem\<rparr>"
  using assms by (auto simp add: read_prepare_def Let_def)

lemma read_prepare_frame:
  assumes "read_prepare n s = Some (sz, s3)"
  shows "buffer_size s3 = buffer_size (read_grow n s)"
    and "length (buf s3) = length (buf (read_grow n s))"
    and "unat sz \<le> length (buf s3)"
proof -
  from read_prepare_Some(2) [OF assms] obtain mem where
    m: "memset (buf (read_grow n s)) 0 0 (unat sz) = Some mem"
    and s3: "s3 = (read_grow n s)\<lparr>buf := mem\<rparr>" by blast
  from s3 show "buffer_size s3 = buffer_size (read_grow n s)" by simp
  from s3 memset_Some(1) [OF m] show "length (buf s3) = length (buf (read_grow n s))" by simp
  from s3 memset_Some(1,2) [OF m] show "unat sz \<le> length (buf s3)" by simp
qed

lemma logical_read_frame:
  assumes "logical_read sz off s = Some (r, s')"
  shows "buffer_size s' = buffer_size s" "shm_mode s' = shm_mode s" "drv_mode s' = drv_mode s"
    "vhd_mode s' = vhd_mode s" "tx s' = tx s" "rx s' = rx s" "peer_open s' = peer_open s"
  using assms
  by (auto simp add: logical_read_def Let_def split: if_splits prod.splits)

lemma logical_read_length:
  assumes lr: "logical_read sz off s = Some (r, s')"
  shows "length (buf s') = length (buf s)"
proof (cases "vhd_mode s")
  case True
  with lr obtain mem' h' where
    vr: "vhd_read (vhd_globals s) (host s) (buf s) 0 sz off = Some (r, mem', h')"
    and b: "buf s' = mem'"
    by (auto simp add: logical_read_def)
  from vhd_read_length [OF vr] b show ?thesis by simp
next
  case False
  with lr show ?thesis
    by (auto simp add: logical_read_def split: prod.splits dest: store_Some(1))
qed

lemma logical_write_frame:
  assumes "logical_write sz off s = Some (r, s')"
  shows "buffer_size s' = buffer_size s" "shm_mode s' = shm_mode s" "drv_mode s' = drv_mode s"
    "vhd_mode s' = vhd_mode s" "tx s' = tx s" "rx s' = rx s" "peer_open s' = peer_open s"
    "buf s' = buf s"
  using assms
  by (auto simp add: logical_write_def Let_def split: if_splits prod.splits)

lemma read_respond_buffer_size:
  "buffer_size (snd (read_respond n sz r s)) = buffer_size s"
  "buf (snd (read_respond n sz r s)) = buf s"
  by (simp_all add: read_respond_def comm_write_def slog_def Let_def
      split: prod.splits if_splits bool.splits)

lemma comm_read_buffer_size:
  "buffer_size (snd (comm_read n s)) = buffer_size s" "buf (snd (comm_read n s)) = buf s"
  by (simp_all add: comm_read_def)

lemma comm_write_buffer_size:
  "buffer_size (snd (comm_write io s)) = buffer_size s" "buf (snd (comm_write io s)) = buf s"
  by (simp_all add: comm_write_def)

lemma slog_buffer_size: "buffer_size (slog m s) = buffer_size s" "buf (slog m s) = buf s"
  by (simp_all add: slog_def)

text \<open>
  A read request that returns after the header has arrived: what \<open>read_prepare\<close> and the
  logical read have given, and that the server returned is the one \<open>read_respond\<close>
  leaves.
\<close>

lemma read_data_steps:
  assumes "read_data s = Some (ok, s')" and "comm_read 16 s = (Some bytes, s1)"
  shows "\<exists>sz s3 readdone s4.
           read_prepare (load64 (drop 8 bytes)) s1 = Some (sz, s3)
           \<and> logical_read sz (image_offset s3 + load64 bytes) s3 = Some (readdone, s4)
           \<and> read_respond (load64 (drop 8 bytes)) sz readdone s4 = (ok, s')"
  using assms
  by (auto simp add: read_data_def Let_def split: option.splits)

lemma read_data_buffer_size:
  assumes "read_data s = Some (ok, s')" and "buffer_size s \<le> drop_bit 1 (- 1)"
  shows "buffer_size s \<le> buffer_size s'" and "buffer_size s' \<le> drop_bit 1 (- 1)"
proof -
  obtain req s1 where cr: "comm_read 16 s = (req, s1)" by (cases "comm_read 16 s")
  then have bs1: "buffer_size s1 = buffer_size s"
    using comm_read_buffer_size(1) [of 16 s] by simp
  have "buffer_size s \<le> buffer_size s' \<and> buffer_size s' \<le> drop_bit 1 (- 1)"
  proof (cases req)
    case None
    with cr assms bs1 show ?thesis by (auto simp add: read_data_def slog_def)
  next
    case (Some bytes)
    with cr have cr': "comm_read 16 s = (Some bytes, s1)" by simp
    from read_data_steps [OF assms(1) cr'] obtain sz s3 readdone s4 where
      rp: "read_prepare (load64 (drop 8 bytes)) s1 = Some (sz, s3)"
      and lr: "logical_read sz (image_offset s3 + load64 bytes) s3 = Some (readdone, s4)"
      and s': "read_respond (load64 (drop 8 bytes)) sz readdone s4 = (ok, s')"
      by blast
    from read_grow_buffer_size [of s1 "load64 (drop 8 bytes)"] assms(2) bs1
      read_prepare_frame(1) [OF rp]
    have b3: "buffer_size s \<le> buffer_size s3" "buffer_size s3 \<le> drop_bit 1 (- 1)" by simp_all
    from read_respond_buffer_size(1) [of "load64 (drop 8 bytes)" sz readdone s4] s'
    have "buffer_size s' = buffer_size s4" by simp
    with logical_read_frame(1) [OF lr] b3 show ?thesis by simp
  qed
  then show "buffer_size s \<le> buffer_size s'" and "buffer_size s' \<le> drop_bit 1 (- 1)"
    by simp_all
qed

lemma write_respond_buffer_size:
  "buffer_size (snd (write_respond e l s)) = buffer_size s"
  "buf (snd (write_respond e l s)) = buf s"
  by (simp_all add: write_respond_def comm_write_def slog_def split: prod.splits bool.splits)

lemma write_result_buffer_size:
  "buffer_size (snd (snd (write_result n w s))) = buffer_size s"
  "buf (snd (snd (write_result n w s))) = buf s"
  by (simp_all add: write_result_def slog_def Let_def)

lemma write_execute_buffer_size:
  assumes "write_execute off len s = Some (e, l, s')"
  shows "buffer_size s' = buffer_size s" and "buf s' = buf s"
proof -
  have "buffer_size s' = buffer_size s \<and> buf s' = buf s"
  proof (cases "flags (devio_info s) AND IMDPROXY_FLAG_RO \<noteq> 0")
    case True
    with assms show ?thesis by (auto simp add: write_execute_def slog_def)
  next
    case False
    with assms obtain writedone s4 where
      lw: "logical_write len (image_offset s + off) s = Some (writedone, s4)"
      and "write_result len writedone s4 = (e, l, s')"
      by (auto simp add: write_execute_def)
    with logical_write_frame(1,8) [OF lw] write_result_buffer_size [of len writedone s4]
    show ?thesis by simp
  qed
  then show "buffer_size s' = buffer_size s" and "buf s' = buf s" by simp_all
qed

lemma write_data_buffer_size:
  assumes "write_data s = Some (ok, s')"
  shows "buffer_size s' = buffer_size s" and "length (buf s') = length (buf s)"
proof -
  obtain req s1 where cr: "comm_read 16 s = (req, s1)" by (cases "comm_read 16 s")
  then have bs1: "buffer_size s1 = buffer_size s" "buf s1 = buf s"
    using comm_read_buffer_size [of 16 s] by simp_all
  have "buffer_size s' = buffer_size s \<and> length (buf s') = length (buf s)"
  proof (cases req)
    case None
    with cr assms bs1 show ?thesis by (auto simp add: write_data_def)
  next
    case (Some bytes)
    show ?thesis
    proof (cases "load64 (drop 8 bytes) > buffer_size s1")
      case True
      with cr Some assms bs1 show ?thesis by (auto simp add: write_data_def Let_def slog_def)
    next
      case False
      obtain pl s2 where cr2: "comm_read (unat (load64 (drop 8 bytes))) s1 = (pl, s2)"
        by (cases "comm_read (unat (load64 (drop 8 bytes))) s1")
      then have bs2: "buffer_size s2 = buffer_size s" "buf s2 = buf s"
        using comm_read_buffer_size [of "unat (load64 (drop 8 bytes))" s1] bs1 by simp_all
      show ?thesis
      proof (cases pl)
        case None
        with cr Some False cr2 assms bs2 show ?thesis
          by (auto simp add: write_data_def Let_def slog_def)
      next
        case (Some payload)
        with cr \<open>req = Some bytes\<close> False cr2 assms obtain mem e l s6 where
          st: "store (buf s2) 0 payload = Some mem"
          and we: "write_execute (load64 bytes) (load64 (drop 8 bytes)) (s2\<lparr>buf := mem\<rparr>)
                     = Some (e, l, s6)"
          and s': "s' = snd (write_respond e l s6)"
          by (auto simp add: write_data_def Let_def split: option.splits)
        from write_execute_buffer_size [OF we] s' bs2 store_Some(1) [OF st] show ?thesis
          by (simp add: write_respond_buffer_size)
      qed
    qed
  qed
  then show "buffer_size s' = buffer_size s" and "length (buf s') = length (buf s)"
    by simp_all
qed

lemma send_info_buffer_size:
  "buffer_size (snd (send_info s)) = buffer_size s" "buf (snd (send_info s)) = buf s"
  by (simp_all add: send_info_def comm_write_def slog_def split: prod.splits bool.splits)

text \<open>One turn of the loop, by the request code.\<close>

lemma do_comm_turn_cases:
  assumes "do_comm_turn s = Some t"
  obtains (closed) s1 where "comm_read 8 s = (None, s1)" "turn_server t = s1"
    | (c_info) bytes s1 where "comm_read 8 s = (Some bytes, s1)"
        "turn_server t = snd (send_info s1)"
    | (c_read) bytes s1 ok where "comm_read 8 s = (Some bytes, s1)"
        "read_data s1 = Some (ok, turn_server t)"
    | (c_write) bytes s1 ok where "comm_read 8 s = (Some bytes, s1)"
        "write_data s1 = Some (ok, turn_server t)"
    | (c_other) bytes s1 s2 where "comm_read 8 s = (Some bytes, s1)"
        "buffer_size s2 = buffer_size s1" "buf s2 = buf s1" "turn_server t = s2"
proof -
  obtain req s1 where cr: "comm_read 8 s = (req, s1)" by (cases "comm_read 8 s")
  show thesis
  proof (cases req)
    case None
    with cr assms closed show ?thesis by (auto simp add: do_comm_turn_def)
  next
    case (Some bytes)
    consider (i) "load64 bytes = IMDPROXY_REQ_INFO"
      | (r) "load64 bytes \<noteq> IMDPROXY_REQ_INFO" "load64 bytes = IMDPROXY_REQ_READ"
      | (w) "load64 bytes \<noteq> IMDPROXY_REQ_INFO" "load64 bytes \<noteq> IMDPROXY_REQ_READ"
          "load64 bytes = IMDPROXY_REQ_WRITE"
      | (o) "load64 bytes \<noteq> IMDPROXY_REQ_INFO" "load64 bytes \<noteq> IMDPROXY_REQ_READ"
          "load64 bytes \<noteq> IMDPROXY_REQ_WRITE"
      by blast
    then show ?thesis
    proof cases
      case i
      with cr Some assms have "turn_server t = snd (send_info s1)"
        by (auto simp add: do_comm_turn_def Let_def split: prod.splits bool.splits)
      with cr Some c_info show ?thesis by simp
    next
      case r
      with cr Some assms obtain ok where "read_data s1 = Some (ok, turn_server t)"
        by (auto simp add: do_comm_turn_def Let_def split: if_splits)
      with cr Some c_read show ?thesis by simp
    next
      case w
      with cr Some assms obtain ok where "write_data s1 = Some (ok, turn_server t)"
        by (auto simp add: do_comm_turn_def Let_def split: if_splits)
      with cr Some c_write show ?thesis by simp
    next
      case o
      with cr Some assms comm_write_buffer_size [of "bytes64 (of_int ENODEV)" s1]
      have "buffer_size (turn_server t) = buffer_size s1" "buf (turn_server t) = buf s1"
        by (auto simp add: do_comm_turn_def Let_def slog_def split: prod.splits bool.splits)
      with cr Some c_other [of bytes s1 "turn_server t"] show ?thesis by simp
    qed
  qed
qed

lemma do_comm_turn_buffer_size:
  assumes "do_comm_turn s = Some t" and "buffer_size s \<le> drop_bit 1 (- 1)"
  shows "buffer_size s \<le> buffer_size (turn_server t)"
    and "buffer_size (turn_server t) \<le> drop_bit 1 (- 1)"
proof -
  have "buffer_size s \<le> buffer_size (turn_server t)
        \<and> buffer_size (turn_server t) \<le> drop_bit 1 (- 1)"
    using assms(1)
  proof (cases rule: do_comm_turn_cases)
    case (closed s1)
    with assms(2) comm_read_buffer_size(1) [of 8 s] show ?thesis by simp
  next
    case (c_info bytes s1)
    with assms(2) comm_read_buffer_size(1) [of 8 s] send_info_buffer_size(1) [of s1]
    show ?thesis by simp
  next
    case (c_read bytes s1 ok)
    with assms(2) comm_read_buffer_size(1) [of 8 s] have "buffer_size s1 = buffer_size s"
      and "buffer_size s1 \<le> drop_bit 1 (- 1)" by simp_all
    with read_data_buffer_size [OF c_read(2)] show ?thesis by simp
  next
    case (c_write bytes s1 ok)
    with assms(2) comm_read_buffer_size(1) [of 8 s] write_data_buffer_size(1) [OF c_write(2)]
    show ?thesis by simp
  next
    case (c_other bytes s1 s2)
    with assms(2) comm_read_buffer_size(1) [of 8 s] show ?thesis by simp
  qed
  then show "buffer_size s \<le> buffer_size (turn_server t)"
    and "buffer_size (turn_server t) \<le> drop_bit 1 (- 1)" by simp_all
qed

subsection \<open>The buffer holds \<open>buffer_size\<close> bytes\<close>

text \<open>
  \<^verbatim>\<open>do_comm\<close> starts the loop with \<^verbatim>\<open>buf = malloc(buffer_size)\<close> (line 2084). Every
  turn of the loop that returns leaves a buffer of at least \<open>buffer_size\<close> bytes: when
  \<open>buf_realloc\<close> has raised \<open>buffer_size\<close> and kept the old block, the fill of
  \<open>read_prepare\<close> leaves that block and the turn does not return.
\<close>

lemma read_grow_holds:
  assumes "read_prepare n s = Some (sz, s3)" and "unat (buffer_size s) \<le> length (buf s)"
  shows "unat (buffer_size s3) \<le> length (buf s3)"
proof (cases "n > buffer_size s \<and> \<not> shm_mode s")
  case True
  then have "buffer_size (read_grow n s) \<le> n"
    by (auto simp add: read_grow_def buf_realloc_buffer_size)
  then have "read_clip n (read_grow n s) = buffer_size (read_grow n s)"
    by (auto simp add: read_clip_def)
  with read_prepare_Some(1) [OF assms(1)] read_prepare_frame [OF assms(1)] show ?thesis
    by simp
next
  case False
  then have "read_grow n s = s" by (auto simp add: read_grow_def buf_realloc_def)
  with read_prepare_frame [OF assms(1)] assms(2) show ?thesis by simp
qed

lemma read_data_holds:
  assumes "read_data s = Some (ok, s')" and "unat (buffer_size s) \<le> length (buf s)"
  shows "unat (buffer_size s') \<le> length (buf s')"
proof -
  obtain req s1 where cr: "comm_read 16 s = (req, s1)" by (cases "comm_read 16 s")
  then have bs1: "buffer_size s1 = buffer_size s" "buf s1 = buf s"
    using comm_read_buffer_size [of 16 s] by simp_all
  show ?thesis
  proof (cases req)
    case None
    with cr assms bs1 show ?thesis by (auto simp add: read_data_def slog_def)
  next
    case (Some bytes)
    with cr have cr': "comm_read 16 s = (Some bytes, s1)" by simp
    from read_data_steps [OF assms(1) cr'] obtain sz s3 readdone s4 where
      rp: "read_prepare (load64 (drop 8 bytes)) s1 = Some (sz, s3)"
      and lr: "logical_read sz (image_offset s3 + load64 bytes) s3 = Some (readdone, s4)"
      and s': "read_respond (load64 (drop 8 bytes)) sz readdone s4 = (ok, s')"
      by blast
    from read_grow_holds [OF rp] assms(2) bs1
    have "unat (buffer_size s3) \<le> length (buf s3)" by simp
    with logical_read_frame(1) [OF lr] logical_read_length [OF lr]
    have "unat (buffer_size s4) \<le> length (buf s4)" by simp
    with read_respond_buffer_size [of "load64 (drop 8 bytes)" sz readdone s4] s'
    show ?thesis by simp
  qed
qed

lemma buffer_holds:
  assumes "do_comm_turn s = Some t" and "unat (buffer_size s) \<le> length (buf s)"
  shows "unat (buffer_size (turn_server t)) \<le> length (buf (turn_server t))"
  using assms(1)
proof (cases rule: do_comm_turn_cases)
  case (closed s1)
  with assms(2) comm_read_buffer_size [of 8 s] show ?thesis by simp
next
  case (c_info bytes s1)
  with assms(2) comm_read_buffer_size [of 8 s] send_info_buffer_size [of s1]
  show ?thesis by simp
next
  case (c_read bytes s1 ok)
  with assms(2) comm_read_buffer_size [of 8 s]
  have "unat (buffer_size s1) \<le> length (buf s1)" by simp
  from read_data_holds [OF c_read(2) this] show ?thesis .
next
  case (c_write bytes s1 ok)
  with assms(2) comm_read_buffer_size [of 8 s] write_data_buffer_size [OF c_write(2)]
  show ?thesis by simp
next
  case (c_other bytes s1 s2)
  with assms(2) comm_read_buffer_size [of 8 s] show ?thesis by simp
qed

lemma serves_holds:
  assumes "serves s s'" and "unat (buffer_size s) \<le> length (buf s)"
  shows "unat (buffer_size s') \<le> length (buf s')"
  using assms
proof (induction rule: serves.induct)
  case (serves_refl s)
  then show ?case by simp
next
  case (serves_turn s s' s'')
  from buffer_holds [OF serves_turn(2)] serves_turn show ?case by simp
qed

subsection \<open>C9: the buffer never shrinks\<close>

text \<open>
  C9. Over any number of turns of the loop of \<^verbatim>\<open>do_comm\<close>, and over one more
  request whether it ends the session or not, \<open>buffer_size\<close> does not decrease. The
  session starts with \<open>buffer_size\<close> at most \<^verbatim>\<open>((safeio_size_t)-1) >> 1\<close>, half the
  address space: \<^verbatim>\<open>do_comm\<close> has allocated a buffer of that size (line 2084).
\<close>

theorem buffer_size_monotone:
  assumes "serves s s'" and "do_comm_turn s' = Some t" and "buffer_size s \<le> drop_bit 1 (- 1)"
  shows "buffer_size s \<le> buffer_size s' \<and> buffer_size s' \<le> buffer_size (turn_server t)"
proof -
  from assms(1,3) have "buffer_size s \<le> buffer_size s' \<and> buffer_size s' \<le> drop_bit 1 (- 1)"
  proof (induction rule: serves.induct)
    case (serves_refl s)
    then show ?case by simp
  next
    case (serves_turn s s' s'')
    then have a: "buffer_size s \<le> buffer_size s'" "buffer_size s' \<le> drop_bit 1 (- 1)"
      by simp_all
    from do_comm_turn_buffer_size [OF serves_turn(2) a(2)] a(1) show ?case by simp
  qed
  with do_comm_turn_buffer_size(1) [OF assms(2)] show ?thesis by simp
qed

lemmas server_defs = do_comm_turn_def read_data_def read_prepare_def read_grow_def
  read_clip_def read_respond_def
  logical_read_def comm_read_def comm_write_def comm_flush_def slog_def load64_def
  buf_realloc_def malloc_def memset_def store_def mask_eq_exp_minus_1
  IMDPROXY_REQ_INFO_def IMDPROXY_REQ_READ_def IMDPROXY_REQ_WRITE_def

lemmas vhd_read_defs = vhd_read_part_def vhd_read_finish_def

theorem buffer_size_monotone_witness:
  "\<exists>t. serves (ex_server [2,0,0,0,0,0,0,0, 0,0,0,0,0,0,0,0, 32,0,0,0,0,0,0,0])
            (ex_server [2,0,0,0,0,0,0,0, 0,0,0,0,0,0,0,0, 32,0,0,0,0,0,0,0])
     \<and> do_comm_turn (ex_server [2,0,0,0,0,0,0,0, 0,0,0,0,0,0,0,0, 32,0,0,0,0,0,0,0]) = Some t
     \<and> buffer_size (ex_server [2,0,0,0,0,0,0,0, 0,0,0,0,0,0,0,0, 32,0,0,0,0,0,0,0]) = 16
     \<and> buffer_size (turn_server t) = 32"
proof -
  let ?s = "ex_server [2,0,0,0,0,0,0,0, 0,0,0,0,0,0,0,0, 32,0,0,0,0,0,0,0]"
  have ev: "\<exists>t. do_comm_turn ?s = Some t \<and> buffer_size (turn_server t) = 32"
    by (simp add: server_defs vhd_read.simps vhd_read_defs io_defs ex_defs Let_def)
  then obtain t where t: "do_comm_turn ?s = Some t" "buffer_size (turn_server t) = 32" by blast
  have b: "buffer_size ?s \<le> drop_bit 1 (- 1)" "buffer_size ?s = 16"
    by (simp_all add: ex_server_def mask_eq_exp_minus_1)
  from buffer_size_monotone [OF serves_refl t(1) b(1)] t b(2) serves_refl [of ?s]
  show ?thesis by blast
qed

subsection \<open>The read handler\<close>

text \<open>
  \<open>read_grow\<close> changes the buffer, its size and the log only; \<open>read_ready\<close> has
  besides the zeros of the fill.
\<close>

lemma read_grown_frame:
  "tx (read_grown s) = tx s" "shm_mode (read_grown s) = shm_mode s"
  "vhd_mode (read_grown s) = vhd_mode s" "vhd_globals (read_grown s) = vhd_globals s"
  "image_file (host (read_grown s)) = image_file (host s)"
  "journal (host (read_grown s)) = journal (host s)"
  "image_offset (read_grown s) = image_offset s"
  by (simp_all add: read_grown_def read_grow_def buf_realloc_def slog_def syslog_def Let_def
      split: option.splits)

lemma read_ready_cases:
  "read_ready s = read_grown s
   \<or> (\<exists>mem. memset (buf (read_grown s)) 0 0 (unat (read_size s)) = Some mem
             \<and> read_ready s = (read_grown s)\<lparr>buf := mem\<rparr>)"
  by (auto simp add: read_ready_def read_prepare_def read_grown_def read_size_def Let_def
      split: option.splits)

lemma read_ready_frame:
  "tx (read_ready s) = tx s" "shm_mode (read_ready s) = shm_mode s"
  "vhd_mode (read_ready s) = vhd_mode s" "vhd_globals (read_ready s) = vhd_globals s"
  "image_file (host (read_ready s)) = image_file (host s)"
  "journal (host (read_ready s)) = journal (host s)"
  "image_offset (read_ready s) = image_offset s"
  "buffer_size (read_ready s) = buffer_size (read_grown s)"
  using read_ready_cases [of s] read_grown_frame [of s] by auto

lemma read_size_min:
  "read_size s = min (req_length_of s) (buffer_size (read_ready s))"
  by (auto simp add: read_ready_frame(8) read_size_def read_clip_def min_def)

text \<open>
  A read request that is answered: the header has arrived, the fill has stayed inside the
  buffer, the logical read has returned, and \<open>read_respond\<close> has sent the response.
\<close>

lemma read_data_Some:
  assumes "read_data s = Some (True, s')"
  shows "\<not> shm_mode s" "\<not> drv_mode s" "16 \<le> length (rx s)"
    and "\<exists>mem. memset (buf (read_grown s)) 0 0 (unat (read_size s)) = Some mem
               \<and> read_ready s = (read_grown s)\<lparr>buf := mem\<rparr>"
    and "\<exists>readdone s4.
           logical_read (read_size s) (image_offset s + req_offset_of s) (read_ready s)
             = Some (readdone, s4)
           \<and> read_respond (req_length_of s) (read_size s) readdone s4 = (True, s')"
proof -
  from assms have m: "\<not> (shm_mode s \<or> drv_mode s)" "16 \<le> length (rx s)"
    by (auto simp add: read_data_def comm_read_def slog_def split: if_splits)
  then show "\<not> shm_mode s" "\<not> drv_mode s" "16 \<le> length (rx s)" by simp_all
  let ?s1 = "s\<lparr>rx := drop 16 (rx s)\<rparr>"
  from m have cr: "comm_read 16 s = (Some (take 16 (rx s)), ?s1)"
    by (simp add: comm_read_def)
  from read_data_steps [OF assms cr] obtain sz s3 readdone s4 where
    rp: "read_prepare (req_length_of s) ?s1 = Some (sz, s3)"
    and lr: "logical_read sz (image_offset s3 + req_offset_of s) s3 = Some (readdone, s4)"
    and rr: "read_respond (req_length_of s) sz readdone s4 = (True, s')"
    by (auto simp add: req_length_of_def req_offset_of_def)
  from read_prepare_Some [OF rp] have sz: "sz = read_size s"
    and mem: "\<exists>mem. memset (buf (read_grown s)) 0 0 (unat (read_size s)) = Some mem
               \<and> s3 = (read_grown s)\<lparr>buf := mem\<rparr>"
    by (simp_all add: read_size_def read_grown_def)
  from rp have s3: "read_ready s = s3" by (simp add: read_ready_def)
  with mem show "\<exists>mem. memset (buf (read_grown s)) 0 0 (unat (read_size s)) = Some mem
               \<and> read_ready s = (read_grown s)\<lparr>buf := mem\<rparr>" by simp
  from lr rr sz s3 read_ready_frame(7) [of s] show "\<exists>readdone s4.
           logical_read (read_size s) (image_offset s + req_offset_of s) (read_ready s)
             = Some (readdone, s4)
           \<and> read_respond (req_length_of s) (read_size s) readdone s4 = (True, s')"
    by auto
qed

lemma read_respond_True:
  assumes "read_respond n sz readdone s4 = (True, s')"
  shows "readdone \<noteq> - 1 \<longrightarrow> tx s' = tx s4 @ resp_block 0 sz @ take (unat sz) (buf s4)"
    and "readdone = - 1 \<longrightarrow> tx s' = tx s4 @ resp_block (of_int (errno (host s4))) 0"
    and "buffer_size s' = buffer_size s4"
  using assms
  by (auto simp add: read_respond_def comm_write_def comm_flush_def slog_def Let_def
      split: if_splits)

lemmas read_defs = read_data_def read_prepare_def read_grow_def read_clip_def read_respond_def
  read_size_def read_ready_def read_grown_def req_length_of_def req_offset_of_def
  logical_read_def

subsection \<open>C2: the length field of a read response\<close>

text \<open>
  C2, as the claim states it, fails: a raw image of four bytes, a request for eight bytes
  at offset 0. The logical layer transfers four bytes; the response has \<open>errorno = 0\<close> and
  \<open>length = 8\<close>, followed by the four bytes and four zeros.
\<close>

theorem read_data_length_field_counterexample:
  "map_option (tx \<circ> snd) (read_data (ex_raw [0,0,0,0,0,0,0,0, 8,0,0,0,0,0,0,0]))
     = Some (resp_block 0 8 @ [1, 2, 3, 4] @ replicate 4 0)
   \<and> map_option fst (logical_read 8 0 (read_ready (ex_raw [0,0,0,0,0,0,0,0, 8,0,0,0,0,0,0,0])))
     = Some 4"
  by (simp add: read_defs server_defs io_defs ex_defs ex_raw_def Let_def)

text \<open>
  C2, amended. For every read request that is answered (\<open>read_data\<close> returns 1, having
  sent its response): when the logical read has not returned \<open>-1\<close>, the response is
  \<open>errorno = 0\<close> with \<open>length\<close> the size served, the smaller of the requested length
  and \<open>buffer_size\<close>, whatever count the logical layer has returned (line 1025 assigns
  \<^verbatim>\<open>size\<close>, not \<^verbatim>\<open>readdone\<close>), and that many bytes of the buffer follow; when it has
  returned \<open>-1\<close>, the response is \<^verbatim>\<open>errno\<close> with \<open>length = 0\<close>.
\<close>

theorem read_data_length_field:
  assumes "read_data s = Some (True, s')"
  shows "\<exists>readdone s4.
           logical_read (read_size s) (image_offset s + req_offset_of s) (read_ready s)
             = Some (readdone, s4)
         \<and> read_size s = min (req_length_of s) (buffer_size s')
         \<and> (readdone \<noteq> - 1 \<longrightarrow>
              tx s' = tx s @ resp_block 0 (read_size s) @ take (unat (read_size s)) (buf s4))
         \<and> (readdone = - 1 \<longrightarrow> tx s' = tx s @ resp_block (of_int (errno (host s4))) 0)"
proof -
  from read_data_Some(5) [OF assms] obtain readdone s4 where
    lr: "logical_read (read_size s) (image_offset s + req_offset_of s) (read_ready s)
           = Some (readdone, s4)"
    and rr: "read_respond (req_length_of s) (read_size s) readdone s4 = (True, s')"
    by blast
  note fr = logical_read_frame [OF lr]
  note rt = read_respond_True [OF rr]
  have "read_size s = min (req_length_of s) (buffer_size s')"
    using read_size_min [of s] fr(1) rt(3) by simp
  with lr rt(1,2) fr(5) read_ready_frame(1) [of s] show ?thesis by auto
qed

theorem read_data_length_field_witness:
  "\<exists>s' s4. read_data (ex_raw [0,0,0,0,0,0,0,0, 8,0,0,0,0,0,0,0]) = Some (True, s')
     \<and> logical_read 8 0 (read_ready (ex_raw [0,0,0,0,0,0,0,0, 8,0,0,0,0,0,0,0])) = Some (4, s4)
     \<and> tx s' = resp_block 0 8 @ take 8 (buf s4)"
proof -
  let ?s = "ex_raw [0,0,0,0,0,0,0,0, 8,0,0,0,0,0,0,0]"
  have "\<exists>s'. read_data ?s = Some (True, s')"
    by (simp add: read_defs server_defs io_defs ex_defs ex_raw_def Let_def)
  then obtain s' where rd: "read_data ?s = Some (True, s')" by blast
  have c: "read_size ?s = 8" "image_offset ?s + req_offset_of ?s = 0" "tx ?s = []"
    by (simp_all add: read_defs server_defs ex_defs ex_raw_def Let_def)
  have "\<exists>s4. logical_read 8 0 (read_ready ?s) = Some (4, s4)"
    by (simp add: read_defs server_defs io_defs ex_defs ex_raw_def Let_def)
  then obtain s4 where lr: "logical_read 8 0 (read_ready ?s) = Some (4, s4)" by blast
  from read_data_length_field [OF rd] lr c have "tx s' = resp_block 0 8 @ take 8 (buf s4)"
    by auto
  with rd lr show ?thesis by blast
qed

subsection \<open>C10: the bytes after a short read\<close>










subsection \<open>C8: requests longer than the buffer\<close>

text \<open>
  The header of a request has arrived (socket transport) and its length is above
  \<open>buffer_size\<close>. A write request is refused: \<open>write_data\<close> logs the error and returns
  0 (\<^verbatim>\<open>do_comm\<close> then returns); nothing else changes, no physical write, no response.
\<close>

lemma oversized_write_refused:
  assumes m: "\<not> shm_mode s" "\<not> drv_mode s" and h: "16 \<le> length (rx s)"
    and big: "buffer_size s < req_length_of s"
  shows "write_data s
           = Some (False, s\<lparr>rx := drop 16 (rx s),
                            host := syslog ''Too big block write requested: %u bytes.'' (host s)\<rparr>)"
  using m h big
  by (simp add: write_data_def comm_read_def req_length_of_def slog_def Let_def)

text \<open>
  For a read request \<open>buf_realloc\<close> is called. It assigns \<open>buffer_size\<close> (line 597)
  before it allocates (lines 635-636): \<open>buffer_size\<close> is the requested length, or
  \<^verbatim>\<open>((safeio_size_t)-1) >> 1\<close> if that is smaller, whether or not \<^verbatim>\<open>malloc\<close>
  succeeds.
\<close>

lemma read_grown_buffer_size:
  assumes m: "\<not> shm_mode s" and big: "buffer_size s < req_length_of s"
  shows "buffer_size (read_grown s) = min (req_length_of s) (drop_bit 1 (- 1))"
    and "read_size s = min (req_length_of s) (drop_bit 1 (- 1))"
proof -
  let ?n = "min (req_length_of s) (drop_bit 1 (- 1))"
  show bs: "buffer_size (read_grown s) = ?n"
    using m big by (auto simp add: read_grown_def read_grow_def buf_realloc_buffer_size min_def)
  have "?n \<le> req_length_of s" by simp
  then have "(if req_length_of s < ?n then req_length_of s else ?n) = ?n" by auto
  with bs show "read_size s = ?n" by (simp add: read_size_def read_clip_def)
qed

lemma buf_realloc_buf:
  assumes "\<not> shm_mode s"
  shows "buf (buf_realloc n s)
         = (if alloc_ok (host s) (unat (min n (drop_bit 1 (- 1))))
            then map (garbage (host s)) [0..<unat (min n (drop_bit 1 (- 1)))] else buf s)"
proof (cases "n > drop_bit 1 (- 1)")
  case True
  then have "\<not> n \<le> drop_bit 1 (- 1)" by simp
  with True assms show ?thesis
    by (simp add: buf_realloc_def malloc_def slog_def Let_def min_def)
next
  case False
  then have "n \<le> drop_bit 1 (- 1)" by simp
  with False assms show ?thesis
    by (simp add: buf_realloc_def malloc_def slog_def Let_def min_def)
qed

lemma read_grown_buf:
  assumes m: "\<not> shm_mode s" and big: "buffer_size s < req_length_of s"
  shows "buf (read_grown s)
         = (if alloc_ok (host s) (unat (min (req_length_of s) (drop_bit 1 (- 1))))
            then map (garbage (host s)) [0..<unat (min (req_length_of s) (drop_bit 1 (- 1)))]
            else buf s)"
  using m big buf_realloc_buf [of "s\<lparr>rx := drop 16 (rx s)\<rparr>" "req_length_of s"]
  by (simp add: read_grown_def read_grow_def)

text \<open>
  When \<^verbatim>\<open>malloc\<close> succeeds, the buffer is a new block of that many bytes, and that many
  bytes are served: with a block size other than 0, \<open>read_data\<close> returns, and a read
  that is answered without error carries that length and that many bytes.
\<close>

lemma logical_read_returns:
  assumes "vhd_mode s \<longrightarrow> block_size (vhd_globals s) \<noteq> 0" and "unat sz \<le> length (buf s)"
  shows "\<exists>y. logical_read sz off s = Some y"
proof (cases "vhd_mode s")
  case True
  with assms vhd_read_returns [of "vhd_globals s" 0 sz "buf s" "host s" off] show ?thesis
    by (auto simp add: logical_read_def)
next
  case False
  obtain r d h' where pr: "physical_read sz off (host s) = (r, d, h')" by (metis prod_cases3)
  from physical_read_cases(1) [OF pr] assms(2) have "0 + length d \<le> length (buf s)" by simp
  from store_inside [OF this] pr False show ?thesis
    by (auto simp add: logical_read_def)
qed

lemma oversized_read_served:
  assumes m: "\<not> shm_mode s" "\<not> drv_mode s" and h: "16 \<le> length (rx s)"
    and big: "buffer_size s < req_length_of s"
    and al: "alloc_ok (host s) (unat (min (req_length_of s) (drop_bit 1 (- 1))))"
    and g: "vhd_mode s \<longrightarrow> block_size (vhd_globals s) \<noteq> 0"
  shows "length (buf (read_ready s)) = unat (min (req_length_of s) (drop_bit 1 (- 1)))"
    and "\<exists>ok s'. read_data s = Some (ok, s')"
    and "read_data s = Some (True, s') \<Longrightarrow>
          buffer_size s' = min (req_length_of s) (drop_bit 1 (- 1))
          \<and> length (buf s') = unat (buffer_size s')
          \<and> (\<exists>readdone s4.
                logical_read (read_size s) (image_offset s + req_offset_of s) (read_ready s)
                  = Some (readdone, s4)
                \<and> (readdone \<noteq> - 1 \<longrightarrow>
                     (\<exists>payload. tx s' = tx s @ resp_block 0 (read_size s) @ payload
                                \<and> length payload = unat (read_size s))))"
proof -
  let ?n = "min (req_length_of s) (drop_bit 1 (- 1))"
  let ?s1 = "s\<lparr>rx := drop 16 (rx s)\<rparr>"
  note gr = read_grown_buffer_size [OF m(1) big]
  from read_grown_buf [OF m(1) big] al have lg: "length (buf (read_grown s)) = unat ?n"
    by simp
  with gr(2) have "0 + unat (read_size s) \<le> length (buf (read_grown s))" by simp
  from memset_inside [OF this] obtain mem where
    ms: "memset (buf (read_grown s)) 0 0 (unat (read_size s)) = Some mem" by blast
  then have rp: "read_prepare (req_length_of s) ?s1
                   = Some (read_size s, (read_grown s)\<lparr>buf := mem\<rparr>)"
    by (simp add: read_prepare_def read_size_def read_grown_def Let_def)
  then have rdy: "read_ready s = (read_grown s)\<lparr>buf := mem\<rparr>" by (simp add: read_ready_def)
  with memset_Some(1) [OF ms] lg show len: "length (buf (read_ready s)) = unat ?n" by simp
  have g': "vhd_mode (read_ready s) \<longrightarrow> block_size (vhd_globals (read_ready s)) \<noteq> 0"
    using g read_ready_frame(3,4) [of s] by simp
  from len gr(2) have rng: "unat (read_size s) \<le> length (buf (read_ready s))" by simp
  from logical_read_returns [OF g' rng] obtain r s4 where
    lr: "logical_read (read_size s) (image_offset s + req_offset_of s) (read_ready s)
           = Some (r, s4)" by fastforce
  have cr: "comm_read 16 s = (Some (take 16 (rx s)), ?s1)"
    using m h by (simp add: comm_read_def)
  from lr rp rdy cr read_ready_frame(7) [of s] show "\<exists>ok s'. read_data s = Some (ok, s')"
    by (auto simp add: read_data_def req_length_of_def req_offset_of_def Let_def
        split: prod.splits)
  assume rd: "read_data s = Some (True, s')"
  from read_data_Some(5) [OF rd] obtain readdone s5 where
    lr': "logical_read (read_size s) (image_offset s + req_offset_of s) (read_ready s)
           = Some (readdone, s5)"
    and rr: "read_respond (req_length_of s) (read_size s) readdone s5 = (True, s')"
    by blast
  note fr = logical_read_frame [OF lr']
  note rt = read_respond_True [OF rr]
  from read_respond_buffer_size(2) [of "req_length_of s" "read_size s" readdone s5] rr
  have b: "buf s' = buf s5" by simp
  from logical_read_length [OF lr'] len have l5: "length (buf s5) = unat ?n" by simp
  with gr(2) have "length (take (unat (read_size s)) (buf s5)) = unat (read_size s)" by simp
  with lr' rt fr(1,5) read_ready_frame(1,8) [of s] gr(1) b l5
  show "buffer_size s' = ?n \<and> length (buf s') = unat (buffer_size s')
          \<and> (\<exists>readdone s4.
                logical_read (read_size s) (image_offset s + req_offset_of s) (read_ready s)
                  = Some (readdone, s4)
                \<and> (readdone \<noteq> - 1 \<longrightarrow>
                     (\<exists>payload. tx s' = tx s @ resp_block 0 (read_size s) @ payload
                                \<and> length payload = unat (read_size s))))"
    by auto
qed

text \<open>
  When \<^verbatim>\<open>malloc\<close> fails, \<open>buf_realloc\<close> logs the failure and keeps the old block, but
  \<open>buffer_size\<close> has been raised already. \<^verbatim>\<open>memset(buf, 0, size)\<close> at line 1011 then
  fills \<open>size = buffer_size\<close> bytes of a block that is shorter: \<open>read_data\<close> writes
  past the buffer and nothing is served.
\<close>

lemma oversized_read_alloc_failure:
  assumes m: "\<not> shm_mode s" "\<not> drv_mode s" and h: "16 \<le> length (rx s)"
    and big: "buffer_size s < req_length_of s"
    and cap: "buffer_size s < drop_bit 1 (- 1)"
    and al: "\<not> alloc_ok (host s) (unat (min (req_length_of s) (drop_bit 1 (- 1))))"
    and fit: "length (buf s) = unat (buffer_size s)"
  shows "read_data s = None"
proof -
  let ?n = "min (req_length_of s) (drop_bit 1 (- 1))"
  let ?s1 = "s\<lparr>rx := drop 16 (rx s)\<rparr>"
  note gr = read_grown_buffer_size [OF m(1) big]
  from read_grown_buf [OF m(1) big] al have b: "buf (read_grown s) = buf s" by simp
  have "buffer_size s < ?n" using big cap by (simp add: min_def)
  then have "\<not> 0 + unat (read_size s) \<le> length (buf (read_grown s))"
    using gr(2) b fit by (simp add: word_less_nat_alt)
  then have "read_prepare (req_length_of s) ?s1 = None"
    by (simp add: read_prepare_def read_size_def read_grown_def memset_def Let_def)
  moreover have "comm_read 16 s = (Some (take 16 (rx s)), ?s1)"
    using m h by (simp add: comm_read_def)
  ultimately show ?thesis
    by (simp add: read_data_def req_length_of_def Let_def)
qed

text \<open>
  C8. The claim: a read request longer than \<open>buffer_size\<close> is served after the buffer
  has been grown. The code evaluated for a read request of \<open>2^64 - 1\<close> bytes on a server
  with a buffer of 16 bytes, on a host that grants no \<open>2^63 - 1\<close> bytes: \<open>buffer_size\<close>
  is raised to \<open>2^63 - 1\<close>, the buffer is still the block of 16 bytes, the size to serve
  is \<open>2^63 - 1\<close>, the fill of that many bytes leaves the block, and \<open>read_data\<close> serves
  nothing.
\<close>

theorem oversized_read_overruns:
  "buffer_size (ex_low_memory [0,0,0,0,0,0,0,0, 0xFF,0xFF,0xFF,0xFF,0xFF,0xFF,0xFF,0xFF]) = 16
   \<and> req_length_of (ex_low_memory [0,0,0,0,0,0,0,0, 0xFF,0xFF,0xFF,0xFF,0xFF,0xFF,0xFF,0xFF])
       = 0xFFFFFFFFFFFFFFFF
   \<and> buffer_size
       (read_grown (ex_low_memory [0,0,0,0,0,0,0,0, 0xFF,0xFF,0xFF,0xFF,0xFF,0xFF,0xFF,0xFF]))
       = 0x7FFFFFFFFFFFFFFF
   \<and> buf (read_grown (ex_low_memory [0,0,0,0,0,0,0,0, 0xFF,0xFF,0xFF,0xFF,0xFF,0xFF,0xFF,0xFF]))
       = replicate 16 0xEE
   \<and> read_size (ex_low_memory [0,0,0,0,0,0,0,0, 0xFF,0xFF,0xFF,0xFF,0xFF,0xFF,0xFF,0xFF])
       = 0x7FFFFFFFFFFFFFFF
   \<and> memset (replicate 16 0xEE) 0 0 (unat (0x7FFFFFFFFFFFFFFF :: u64)) = None
   \<and> read_data (ex_low_memory [0,0,0,0,0,0,0,0, 0xFF,0xFF,0xFF,0xFF,0xFF,0xFF,0xFF,0xFF]) = None"
  by (simp add: read_defs server_defs ex_defs ex_low_memory_def Let_def)

subsection \<open>The physical calls of \<open>vhd_write\<close>\<close>



lemma replay_Nil: "replay [] bytes = bytes"
  by (simp add: replay_def)



















lemma written_write:
  "written [PWrite tag off sz r data] = (if tag = Payload then r else 0)"
  by (simp add: written_def)










subsection \<open>The recursion of \<open>vhd_write\<close>\<close>


subsection \<open>C6: failing writes\<close>




end
